theory Spec2Isabelle
  imports Complex_Main "HOL-Library.Multiset" "HOL-Library.Sublist"
begin

section \<open>The results view: filtering and pagination (ComparisonResults.js)\<close>

text \<open>
  One row of \<open>results.results\<close> as the component reads it. The status is the string the
  backend sends (\<open>'match'\<close>, \<open>'mismatch'\<close>, \<open>'missing_from_krowne'\<close>, \<open>'krowne_only'\<close>);
  a missing \<open>krowne_url\<close> is \<open>None\<close>.
\<close>

record result_row =
  product_id :: string
  name :: string
  status :: string
  differences :: "string list"
  krowne_url :: "string option"

definition itemsPerPage :: int where
  "itemsPerPage = 20"

text \<open>
  \<open>Array.prototype.slice(start, end)\<close>: a negative index counts from the end, both
  indices are clamped to the length, and an empty range gives the empty array.
\<close>

definition slice :: "'a list \<Rightarrow> int \<Rightarrow> int \<Rightarrow> 'a list" where
  "slice xs start end =
     (let len = int (length xs);
          k = (if start < 0 then max (len + start) 0 else min start len);
          final = (if end < 0 then max (len + end) 0 else min end len)
      in take (nat (final - k)) (drop (nat k) xs))"

definition filteredResults :: "string \<Rightarrow> result_row list \<Rightarrow> result_row list" where
  "filteredResults flt rs =
     filter (\<lambda>result. if flt = ''all'' then True else status result = flt) rs"

definition paginatedResults :: "string \<Rightarrow> int \<Rightarrow> result_row list \<Rightarrow> result_row list" where
  "paginatedResults flt currentPage rs =
     slice (filteredResults flt rs)
       ((currentPage - 1) * itemsPerPage) (currentPage * itemsPerPage)"

text \<open>\<open>Math.ceil(filteredResults.length / itemsPerPage)\<close>, a division of numbers.\<close>

definition totalPages :: "string \<Rightarrow> result_row list \<Rightarrow> int" where
  "totalPages flt rs =
     \<lceil>real (length (filteredResults flt rs)) / real_of_int itemsPerPage\<rceil>"

text \<open>The two updater functions handed to \<open>setCurrentPage\<close>.\<close>

definition previousPage :: "int \<Rightarrow> int" where
  "previousPage prev = max (prev - 1) 1"

definition nextPage :: "int \<Rightarrow> int \<Rightarrow> int" where
  "nextPage tp prev = min (prev + 1) tp"

text \<open>
  The component's state and the clicks it reacts to. The pagination bar is rendered only
  when \<open>totalPages > 1\<close>, Previous is disabled on page 1 and Next on the last page; a
  filter button changes the filter and leaves the page as it is.
\<close>

record view_state =
  filterSel :: string
  currentPage :: int

datatype click = SetFilter string | Previous | Next

definition initial_view :: view_state where
  "initial_view = \<lparr>filterSel = ''all'', currentPage = 1\<rparr>"

fun on_click :: "result_row list \<Rightarrow> view_state \<Rightarrow> click \<Rightarrow> view_state" where
  "on_click rs s (SetFilter f) = s\<lparr>filterSel := f\<rparr>"
| "on_click rs s Previous =
     (if 1 < totalPages (filterSel s) rs \<and> currentPage s \<noteq> 1
      then s\<lparr>currentPage := previousPage (currentPage s)\<rparr> else s)"
| "on_click rs s Next =
     (if 1 < totalPages (filterSel s) rs \<and> currentPage s \<noteq> totalPages (filterSel s) rs
      then s\<lparr>currentPage := nextPage (totalPages (filterSel s) rs) (currentPage s)\<rparr> else s)"

definition displayed :: "result_row list \<Rightarrow> view_state \<Rightarrow> result_row list" where
  "displayed rs s = paginatedResults (filterSel s) (currentPage s) rs"

subsection \<open>Slices at page boundaries\<close>

lemma slice_nat_unfold:
  "slice xs (int m) (int n) =
     take (min n (length xs) - min m (length xs)) (drop (min m (length xs)) xs)"
proof -
  have a: "min (int m) (int (length xs)) = int (min m (length xs))" by simp
  have b: "min (int n) (int (length xs)) = int (min n (length xs))" by simp
  have c: "nat (int (min n (length xs)) - int (min m (length xs)))
             = min n (length xs) - min m (length xs)"
    by (simp only: nat_minus_as_int [symmetric] nat_int)
  show ?thesis
    unfolding slice_def Let_def by (simp only: a b c nat_int of_nat_less_0_iff if_False)
qed

lemma slice_nat:
  assumes "m \<le> n"
  shows "slice xs (int m) (int n) = take (n - m) (drop m xs)"
proof (cases "m \<le> length xs")
  case True
  note m = this
  show ?thesis
  proof (cases "n \<le> length xs")
    case True
    with m show ?thesis by (simp add: slice_nat_unfold min_absorb1)
  next
    case False
    then have "length (drop m xs) \<le> n - m" "length (drop m xs) \<le> length xs - m"
      using m by simp_all
    then have "take (n - m) (drop m xs) = drop m xs"
      "take (length xs - m) (drop m xs) = drop m xs"
      by simp_all
    with m False show ?thesis by (simp add: slice_nat_unfold min_absorb1 min_absorb2)
  qed
next
  case False
  with assms show ?thesis by (simp add: slice_nat_unfold min_absorb2)
qed

lemma slice_page:
  assumes "1 \<le> p"
  shows "slice xs ((p - 1) * 20) (p * 20) = take 20 (drop (nat ((p - 1) * 20)) xs)"
proof -
  define q where "q = nat (p - 1)"
  have p: "p = int q + 1" using assms by (simp add: q_def)
  have e1: "(p - 1) * 20 = int (q * 20)" by (simp add: p)
  have e2: "p * 20 = int (q * 20 + 20)" by (simp add: p)
  have "slice xs (int (q * 20)) (int (q * 20 + 20))
          = take (q * 20 + 20 - q * 20) (drop (q * 20) xs)"
    by (rule slice_nat) simp
  then show ?thesis by (simp only: e1 e2 nat_int add_diff_cancel_left')
qed

lemma paginatedResults_take_drop:
  "1 \<le> p \<Longrightarrow>
     paginatedResults flt p rs = take 20 (drop (nat ((p - 1) * 20)) (filteredResults flt rs))"
  unfolding paginatedResults_def itemsPerPage_def by (rule slice_page)

lemma filteredResults_subseq: "subseq (filteredResults flt rs) rs"
  by (simp add: filteredResults_def)

lemma on_click_page_ge_1: "1 \<le> currentPage s \<Longrightarrow> 1 \<le> currentPage (on_click rs s c)"
  by (cases c) (simp_all add: previousPage_def nextPage_def)

lemma reachable_page_ge_1: "1 \<le> currentPage (foldl (on_click rs) initial_view cs)"
proof -
  have "1 \<le> currentPage s \<Longrightarrow> 1 \<le> currentPage (foldl (on_click rs) s cs)" for s
    by (induction cs arbitrary: s) (simp_all add: on_click_page_ge_1)
  then show ?thesis by (simp add: initial_view_def)
qed

subsection \<open>Pages of the filtered list\<close>

lemma ceiling_div20: "\<lceil>real n / 20\<rceil> = (int n + 19) div 20"
proof -
  have "\<lceil>real_of_int (int n) / real_of_int 20\<rceil> = - (- int n div 20)"
    by (rule ceiling_divide_eq_div)
  moreover have "- (- k div 20) = (k + 19) div 20" for k :: int by linarith
  ultimately show ?thesis by simp
qed

lemma totalPages_div: "totalPages flt rs = (int (length (filteredResults flt rs)) + 19) div 20"
  by (simp add: totalPages_def itemsPerPage_def ceiling_div20)

text \<open>
  The page shown and the two page buttons. For every filter selection and every page
  \<open>p \<ge> 1\<close> (every page the clicks can reach) the displayed rows are the slice
  \<open>[(p - 1) * 20, p * 20)\<close> of the status-filtered list: at most 20 rows, row \<open>i\<close> of the
  page is row \<open>(p - 1) * 20 + i\<close> of the filtered list, and the filtered list is a
  subsequence of the results in their original order. Previous goes back one page and
  stops at 1; Next goes on one page and stops at the last page, to which it also brings
  a page from above; so a page in \<open>[1, totalPages]\<close> stays there, and neither button
  touches the filter.
\<close>

theorem pagination_slice_and_clamp:
  assumes "1 \<le> currentPage s"
  shows "displayed rs s
           = take 20 (drop (nat ((currentPage s - 1) * 20)) (filteredResults (filterSel s) rs))
       \<and> length (displayed rs s) \<le> 20
       \<and> (\<forall>i < length (displayed rs s).
             displayed rs s ! i
               = filteredResults (filterSel s) rs ! (nat ((currentPage s - 1) * 20) + i))
       \<and> subseq (filteredResults (filterSel s) rs) rs
       \<and> set (filteredResults (filterSel s) rs)
             = {r \<in> set rs. filterSel s = ''all'' \<or> status r = filterSel s}
       \<and> previousPage (currentPage s) = (if 1 < currentPage s then currentPage s - 1 else 1)
       \<and> nextPage (totalPages (filterSel s) rs) (currentPage s)
             = (if currentPage s < totalPages (filterSel s) rs then currentPage s + 1
                else totalPages (filterSel s) rs)
       \<and> 1 \<le> currentPage (on_click rs s Previous)
       \<and> 1 \<le> currentPage (on_click rs s Next)
       \<and> (1 < totalPages (filterSel s) rs
             \<longrightarrow> currentPage (on_click rs s Next) \<le> totalPages (filterSel s) rs)
       \<and> (1 < totalPages (filterSel s) rs \<and> currentPage s \<noteq> 1
             \<longrightarrow> currentPage (on_click rs s Previous) = currentPage s - 1)
       \<and> (1 < totalPages (filterSel s) rs \<and> currentPage s \<noteq> totalPages (filterSel s) rs
             \<longrightarrow> currentPage (on_click rs s Next)
                   = (if currentPage s < totalPages (filterSel s) rs then currentPage s + 1
                      else totalPages (filterSel s) rs))
       \<and> (currentPage s \<le> totalPages (filterSel s) rs \<longrightarrow>
             (\<forall>c \<in> {Previous, Next}.
                1 \<le> currentPage (on_click rs s c)
              \<and> currentPage (on_click rs s c) \<le> totalPages (filterSel s) rs
              \<and> filterSel (on_click rs s c) = filterSel s))"
proof -
  let ?f = "filteredResults (filterSel s) rs"
  let ?k = "nat ((currentPage s - 1) * 20)"
  let ?T = "totalPages (filterSel s) rs"
  have d: "displayed rs s = take 20 (drop ?k ?f)"
    unfolding displayed_def using assms by (rule paginatedResults_take_drop)
  have len: "length (displayed rs s) \<le> 20" by (simp add: d)
  have nth: "\<forall>i < length (displayed rs s). displayed rs s ! i = ?f ! (?k + i)"
  proof (intro allI impI)
    fix i assume "i < length (displayed rs s)"
    then have i: "i < 20" "i < length ?f - ?k" by (simp_all add: d)
    then have "?k \<le> length ?f" by simp
    then have "drop ?k ?f ! i = ?f ! (?k + i)" by (rule nth_drop)
    with i show "displayed rs s ! i = ?f ! (?k + i)" by (simp add: d)
  qed
  have sub: "subseq ?f rs" by (rule filteredResults_subseq)
  have st: "set ?f = {r \<in> set rs. filterSel s = ''all'' \<or> status r = filterSel s}"
    by (auto simp: filteredResults_def)
  have pv: "previousPage (currentPage s) = (if 1 < currentPage s then currentPage s - 1 else 1)"
    by (simp add: previousPage_def)
  have nx: "nextPage ?T (currentPage s) = (if currentPage s < ?T then currentPage s + 1 else ?T)"
    by (simp add: nextPage_def)
  have lo: "1 \<le> currentPage (on_click rs s Previous)" "1 \<le> currentPage (on_click rs s Next)"
    using assms by (simp_all add: previousPage_def nextPage_def)
  have hi: "1 < ?T \<longrightarrow> currentPage (on_click rs s Next) \<le> ?T"
    by (simp add: nextPage_def)
  have ep: "1 < ?T \<and> currentPage s \<noteq> 1
              \<longrightarrow> currentPage (on_click rs s Previous) = currentPage s - 1"
    using assms by (simp add: previousPage_def)
  have en: "1 < ?T \<and> currentPage s \<noteq> ?T
              \<longrightarrow> currentPage (on_click rs s Next)
                    = (if currentPage s < ?T then currentPage s + 1 else ?T)"
    by (simp add: nextPage_def)
  have clamp: "currentPage s \<le> ?T \<longrightarrow>
             (\<forall>c \<in> {Previous, Next}.
                1 \<le> currentPage (on_click rs s c)
              \<and> currentPage (on_click rs s c) \<le> ?T
              \<and> filterSel (on_click rs s c) = filterSel s)"
    using assms by (simp add: previousPage_def nextPage_def)
  from d len nth sub st pv nx lo hi ep en clamp show ?thesis by blast
qed

definition sample_rows :: "result_row list" where
  "sample_rows =
     replicate 70 \<lparr>product_id = ''K-1'', name = ''Ice Bin'', status = ''match'',
                    differences = [], krowne_url = None\<rparr>
     @ replicate 22 \<lparr>product_id = ''K-2'', name = ''Drain'', status = ''mismatch'',
                    differences = [''Price: 10 vs 12''], krowne_url = None\<rparr>"

lemma sample_filtered:
  "filteredResults ''mismatch'' sample_rows =
     replicate 22 \<lparr>product_id = ''K-2'', name = ''Drain'', status = ''mismatch'',
                    differences = [''Price: 10 vs 12''], krowne_url = None\<rparr>"
  by (simp add: filteredResults_def sample_rows_def)

lemma sample_pages: "totalPages ''mismatch'' sample_rows = 2"
  by (simp add: totalPages_div sample_filtered)

theorem pagination_slice_and_clamp_witness:
  "1 \<le> currentPage \<lparr>filterSel = ''mismatch'', currentPage = 2\<rparr>
   \<and> currentPage \<lparr>filterSel = ''mismatch'', currentPage = 2\<rparr>
        \<le> totalPages (filterSel \<lparr>filterSel = ''mismatch'', currentPage = 2\<rparr>) sample_rows
   \<and> length (displayed sample_rows \<lparr>filterSel = ''mismatch'', currentPage = 2\<rparr>) = 2
   \<and> currentPage (on_click sample_rows \<lparr>filterSel = ''mismatch'', currentPage = 2\<rparr> Previous) = 1
   \<and> currentPage (on_click sample_rows \<lparr>filterSel = ''mismatch'', currentPage = 2\<rparr> Next) = 2
   \<and> currentPage (on_click sample_rows \<lparr>filterSel = ''mismatch'', currentPage = 1\<rparr> Next) = 2
   \<and> currentPage (on_click sample_rows \<lparr>filterSel = ''mismatch'', currentPage = 1\<rparr> Previous) = 1"
  using pagination_slice_and_clamp [of "\<lparr>filterSel = ''mismatch'', currentPage = 2\<rparr>" sample_rows]
    pagination_slice_and_clamp [of "\<lparr>filterSel = ''mismatch'', currentPage = 1\<rparr>" sample_rows]
  by (simp add: sample_pages sample_filtered previousPage_def nextPage_def)

lemma sample_all_pages: "totalPages ''all'' sample_rows = 5"
  by (simp add: totalPages_div filteredResults_def sample_rows_def)

lemma sample_next:
  "p < 5 \<Longrightarrow>
     on_click sample_rows \<lparr>filterSel = ''all'', currentPage = p\<rparr> Next
       = \<lparr>filterSel = ''all'', currentPage = p + 1\<rparr>"
  by (simp add: sample_all_pages nextPage_def)

lemma sample_clicks:
  "foldl (on_click sample_rows) initial_view [Next, Next, Next, Next, SetFilter ''mismatch'']
     = \<lparr>filterSel = ''mismatch'', currentPage = 5\<rparr>"
  by (simp add: initial_view_def sample_next del: on_click.simps(3))

lemma sample_page_5:
  "displayed sample_rows \<lparr>filterSel = ''mismatch'', currentPage = 5\<rparr> = []"
proof -
  have "paginatedResults ''mismatch'' 5 sample_rows
          = take 20 (drop (nat ((5 - 1) * 20)) (filteredResults ''mismatch'' sample_rows))"
    by (rule paginatedResults_take_drop) simp
  then show ?thesis by (simp add: displayed_def sample_filtered)
qed

text \<open>
  C10 on the code. The claim has the current page kept within \<open>[1, totalPages]\<close>, and the
  two page buttons clamp towards it, but the filter buttons change the filter and leave
  the page where it is. On 92 results, 22 of them mismatches, four clicks on Next and
  one on the Mismatches filter leave the view on page 5 of 2, which shows no rows;
  Previous then gives page 4, still above the last page, and only Next brings the page
  back to 2.
\<close>

theorem filter_change_page_above_range:
  "foldl (on_click sample_rows) initial_view [Next, Next, Next, Next, SetFilter ''mismatch'']
     = \<lparr>filterSel = ''mismatch'', currentPage = 5\<rparr>
   \<and> totalPages ''mismatch'' sample_rows = 2
   \<and> displayed sample_rows \<lparr>filterSel = ''mismatch'', currentPage = 5\<rparr> = []
   \<and> currentPage (on_click sample_rows \<lparr>filterSel = ''mismatch'', currentPage = 5\<rparr> Previous) = 4
   \<and> currentPage (on_click sample_rows \<lparr>filterSel = ''mismatch'', currentPage = 5\<rparr> Next) = 2"
proof -
  have "currentPage (on_click sample_rows \<lparr>filterSel = ''mismatch'', currentPage = 5\<rparr> Previous) = 4"
    by (simp add: sample_pages previousPage_def)
  moreover
  have "currentPage (on_click sample_rows \<lparr>filterSel = ''mismatch'', currentPage = 5\<rparr> Next) = 2"
    by (simp add: sample_pages nextPage_def)
  ultimately show ?thesis using sample_clicks sample_pages sample_page_5 by simp
qed


section \<open>JavaScript values read by the API clients\<close>

text \<open>
  A parsed JSON body. \<open>undefined\<close> is \<open>None\<close> in \<open>json option\<close>. Numbers are rationals:
  every finite double is one, and the clients only compare and add them.
\<close>

datatype json =
  JNull | JBool bool | JNum rat | JStr string | JArr "json list" | JObj "(string \<times> json) list"

text \<open>
  Property read \<open>v.k\<close> on a value other than \<open>null\<close>, for the keys the clients read
  (\<open>current\<close>, \<open>completed\<close>, \<open>error\<close>, \<open>products\<close>): only an object has them, and of a
  repeated key \<open>JSON.parse\<close> keeps the last.
\<close>

fun get_prop :: "json \<Rightarrow> string \<Rightarrow> json option" where
  "get_prop (JObj kvs) k = map_of (rev kvs) k"
| "get_prop _ k = None"

fun truthy :: "json \<Rightarrow> bool" where
  "truthy JNull = False"
| "truthy (JBool b) = b"
| "truthy (JNum n) = (n \<noteq> 0)"
| "truthy (JStr s) = (s \<noteq> [])"
| "truthy (JArr _) = True"
| "truthy (JObj _) = True"

definition truthy_opt :: "json option \<Rightarrow> bool" where
  "truthy_opt v = (case v of None \<Rightarrow> False | Some j \<Rightarrow> truthy j)"

text \<open>
  What the engine supplies: \<open>ToString\<close> of a value that is not a string, \<open>ToNumber\<close> of a
  string, array or object (\<open>None\<close> is \<open>NaN\<close>), and the messages of the errors it raises
  itself.
\<close>

record engine =
  string_of :: "json \<Rightarrow> string"
  number_of :: "json \<Rightarrow> rat option"
  syntax_error_message :: string
  type_error_message :: string

fun to_number :: "engine \<Rightarrow> json option \<Rightarrow> rat option" where
  "to_number eng None = None"
| "to_number eng (Some JNull) = Some 0"
| "to_number eng (Some (JBool b)) = Some (if b then 1 else 0)"
| "to_number eng (Some (JNum n)) = Some n"
| "to_number eng (Some v) = number_of eng v"

text \<open>\<open>v < n\<close> for a number \<open>n\<close>: false when \<open>v\<close> converts to \<open>NaN\<close>.\<close>

definition less_than :: "engine \<Rightarrow> json option \<Rightarrow> rat \<Rightarrow> bool" where
  "less_than eng v n = (case to_number eng v of None \<Rightarrow> False | Some x \<Rightarrow> x < n)"

text \<open>The message of \<open>new Error(v || dflt)\<close>.\<close>

definition error_message :: "engine \<Rightarrow> json option \<Rightarrow> string \<Rightarrow> string" where
  "error_message eng v dflt =
     (case v of
        None \<Rightarrow> dflt
      | Some j \<Rightarrow> if truthy j then (case j of JStr s \<Rightarrow> s | _ \<Rightarrow> string_of eng j) else dflt)"

text \<open>
  \<open>fetch\<close> either rejects (a network error, with its message) or resolves to a response;
  \<open>response.ok\<close> is a status from 200 to 299, and \<open>response.json()\<close> rejects when the body
  is not JSON (\<open>body = None\<close>).
\<close>

record http_response =
  status_code :: nat
  body :: "json option"

datatype fetch_outcome = NetworkError string | Response http_response

definition ok :: "http_response \<Rightarrow> bool" where
  "ok response = (200 \<le> status_code response \<and> status_code response \<le> 299)"

text \<open>The settled value of an async call: fulfilled, or rejected with an error's message.\<close>

datatype 'a outcome = Returned 'a | Thrown string

section \<open>csvApi.js\<close>

text \<open>
  The shared body of the GET helpers: \<open>null\<close> for a 404 where \<open>on404\<close> is set, the
  server's \<open>error\<close> (or the default message) thrown for any other failure status, the
  parsed body otherwise. Reading \<open>error.error\<close> of a \<open>null\<close> body is a TypeError.
\<close>

definition read_reply :: "engine \<Rightarrow> bool \<Rightarrow> string \<Rightarrow> fetch_outcome \<Rightarrow> json outcome" where
  "read_reply eng on404 dflt fetched =
     (case fetched of
        NetworkError m \<Rightarrow> Thrown m
      | Response response \<Rightarrow>
          if \<not> ok response then
            if on404 \<and> status_code response = 404 then Returned JNull
            else (case body response of
                    None \<Rightarrow> Thrown (syntax_error_message eng)
                  | Some JNull \<Rightarrow> Thrown (type_error_message eng)
                  | Some error \<Rightarrow> Thrown (error_message eng (get_prop error ''error'') dflt))
          else (case body response of
                  None \<Rightarrow> Thrown (syntax_error_message eng)
                | Some v \<Rightarrow> Returned v))"

definition getUploadProgress ::
  "engine \<Rightarrow> (string \<Rightarrow> fetch_outcome) \<Rightarrow> string \<Rightarrow> json outcome" where
  "getUploadProgress eng fetch filename =
     read_reply eng True ''Failed to get progress'' (fetch (''/api/upload-progress/'' @ filename))"

definition getCompareProgress ::
  "engine \<Rightarrow> (string \<Rightarrow> fetch_outcome) \<Rightarrow> string \<Rightarrow> json outcome" where
  "getCompareProgress eng fetch identifier =
     read_reply eng True ''Failed to get progress'' (fetch (''/api/compare-progress/'' @ identifier))"

text \<open>
  What the progress callback is handed: the progress data, or \<open>{ error: error.message }\<close>.
  The callback is the caller's function. It throws an error with a message, or it
  returns; the object it was handed is the very object \<open>poll\<close> goes on to read, and the
  callback may have written to it, so a return comes with that object as the callback
  left it. A value that is not an object cannot be written to.
\<close>

datatype cb_arg = ProgressData json | ErrorObject string

datatype cb_outcome = Returns json | Throws string

type_synonym callback = "cb_arg \<Rightarrow> cb_outcome"

definition left_by :: "json \<Rightarrow> json \<Rightarrow> json" where
  "left_by handed after =
     (case handed of JObj kvs \<Rightarrow> after | JArr xs \<Rightarrow> after | _ \<Rightarrow> handed)"

text \<open>
  \<open>progressData\<close> as \<open>poll\<close> assigns it: the awaited helper for the two known
  types, left \<open>undefined\<close> for any other. Then one run of \<open>poll\<close>: the callback
  invocations in order, whether \<open>setTimeout(poll, interval)\<close> was called, and the error
  that escapes (the catch block's own callback throwing). The test for another poll
  reads \<open>completed\<close> and \<open>current\<close> after the callback has had the data.
\<close>

record poll_result =
  calls :: "cb_arg list"
  scheduled :: bool
  escaped :: "string option"

definition on_error :: "callback \<Rightarrow> cb_arg list \<Rightarrow> string \<Rightarrow> poll_result" where
  "on_error cb before m =
     \<lparr>calls = before @ [ErrorObject m], scheduled = False,
      escaped = (case cb (ErrorObject m) of Returns v \<Rightarrow> None | Throws m' \<Rightarrow> Some m')\<rparr>"

definition fetch_progress ::
  "engine \<Rightarrow> (string \<Rightarrow> fetch_outcome) \<Rightarrow> string \<Rightarrow> string \<Rightarrow> json option outcome" where
  "fetch_progress eng fetch type identifier =
     (if type = ''upload'' then
        (case getUploadProgress eng fetch identifier of
           Thrown m \<Rightarrow> Thrown m | Returned v \<Rightarrow> Returned (Some v))
      else if type = ''compare'' then
        (case getCompareProgress eng fetch identifier of
           Thrown m \<Rightarrow> Thrown m | Returned v \<Rightarrow> Returned (Some v))
      else Returned None)"

definition poll ::
  "engine \<Rightarrow> (string \<Rightarrow> fetch_outcome) \<Rightarrow> callback \<Rightarrow> string \<Rightarrow> string \<Rightarrow> poll_result" where
  "poll eng fetch cb type identifier =
     (case fetch_progress eng fetch type identifier of
        Thrown m \<Rightarrow> on_error cb [] m
      | Returned None \<Rightarrow> \<lparr>calls = [], scheduled = False, escaped = None\<rparr>
      | Returned (Some progressData) \<Rightarrow>
          if truthy progressData then
            (case cb (ProgressData progressData) of
               Throws m \<Rightarrow> on_error cb [ProgressData progressData] m
             | Returns after \<Rightarrow>
                 \<lparr>calls = [ProgressData progressData],
                  scheduled =
                    (\<not> truthy_opt (get_prop (left_by progressData after) ''completed'')
                     \<and> less_than eng (get_prop (left_by progressData after) ''current'') 100),
                  escaped = None\<rparr>)
          else \<lparr>calls = [], scheduled = False, escaped = None\<rparr>)"

text \<open>
  \<open>pollProgress\<close> over time: the list holds the network as it answers at each timer tick
  that is observed; the result is every callback invocation made, in order.
\<close>

fun pollProgress ::
  "engine \<Rightarrow> (string \<Rightarrow> fetch_outcome) list \<Rightarrow> callback \<Rightarrow> string \<Rightarrow> string \<Rightarrow> cb_arg list" where
  "pollProgress eng [] cb type identifier = []"
| "pollProgress eng (fetch # later) cb type identifier =
     (let r = poll eng fetch cb type identifier
      in calls r @ (if scheduled r then pollProgress eng later cb type identifier else []))"

text \<open>
  \<open>compareWithProgress\<close>: the two fields of the request body it reads, the poll it
  starts when a callback is given (the type and the identifier handed to
  \<open>pollProgress\<close>; a missing filename is \<open>undefined\<close>, here \<open>None\<close>), and what follows
  the settled \<open>compareProducts\<close>: its result is returned, its error is reported to the
  callback and thrown again, unless the callback throws in its place.
\<close>

record compare_request =
  source_type :: string
  filename :: "string option"

definition progress_identifier :: "compare_request \<Rightarrow> string option" where
  "progress_identifier data =
     (if source_type data = ''csv'' then filename data else Some ''sf'')"

record compare_run =
  polling :: "(string \<times> string option) option"
  reported :: "cb_arg list"
  settled :: "json outcome"

definition compareWithProgress ::
  "compare_request \<Rightarrow> callback option \<Rightarrow> json outcome \<Rightarrow> compare_run" where
  "compareWithProgress data progressCallback compared =
     (let identifier = progress_identifier data
      in \<lparr>polling = (case progressCallback of
                       None \<Rightarrow> None
                     | Some cb \<Rightarrow> Some (''compare'', identifier)),
          reported = (case compared of
                        Returned result \<Rightarrow> []
                      | Thrown m \<Rightarrow>
                          (case progressCallback of None \<Rightarrow> [] | Some cb \<Rightarrow> [ErrorObject m])),
          settled = (case compared of
                       Returned result \<Rightarrow> Returned result
                     | Thrown m \<Rightarrow>
                         (case progressCallback of
                            None \<Rightarrow> Thrown m
                          | Some cb \<Rightarrow>
                              (case cb (ErrorObject m) of
                                 Returns v \<Rightarrow> Thrown m
                               | Throws m' \<Rightarrow> Thrown m')))\<rparr>)"

section \<open>salesforceApi.js\<close>

text \<open>
  \<open>getSalesforceProducts\<close> on the reply to its request. The request carries \<open>limit\<close>,
  \<open>family\<close> and \<open>active_only\<close> only: an \<open>offset\<close> option is not sent.
\<close>

definition getSalesforceProducts :: "engine \<Rightarrow> fetch_outcome \<Rightarrow> json outcome" where
  "getSalesforceProducts eng fetched = read_reply eng False ''Failed to get products'' fetched"

text \<open>
  \<open>response.products || []\<close>, \<open>allProducts.concat(products)\<close> (an array is spread, any
  other value is appended as one element) and \<open>products.length\<close> (of an array or a
  string, counted here in characters; an object's own \<open>length\<close>; \<open>undefined\<close>
  otherwise).
\<close>

definition products_of :: "json \<Rightarrow> json" where
  "products_of response =
     (case get_prop response ''products'' of
        None \<Rightarrow> JArr []
      | Some v \<Rightarrow> if truthy v then v else JArr [])"

fun concat_js :: "json list \<Rightarrow> json \<Rightarrow> json list" where
  "concat_js xs (JArr ys) = xs @ ys"
| "concat_js xs v = xs @ [v]"

fun length_js :: "json \<Rightarrow> json option" where
  "length_js (JArr ys) = Some (JNum (of_nat (length ys)))"
| "length_js (JStr s) = Some (JNum (of_nat (length s)))"
| "length_js (JObj kvs) = get_prop (JObj kvs) ''length''"
| "length_js _ = None"

text \<open>
  One pass through the body of the \<open>while\<close> loop, on the reply to that pass's request:
  the loop is left (by \<open>break\<close>, or with \<open>hasMore\<close> false) or entered again, with the
  products collected and the offset reached. A \<open>null\<close> body makes \<open>response.products\<close>
  throw inside the \<open>try\<close>; the catch block breaks with nothing changed.
\<close>

datatype batch_step = Leave "json list" rat | Again "json list" rat

definition batch_body :: "engine \<Rightarrow> rat \<Rightarrow> fetch_outcome \<Rightarrow> json list \<Rightarrow> rat \<Rightarrow> batch_step" where
  "batch_body eng batchSize fetched allProducts offset =
     (case getSalesforceProducts eng fetched of
        Thrown m \<Rightarrow> Leave allProducts offset
      | Returned JNull \<Rightarrow> Leave allProducts offset
      | Returned response \<Rightarrow>
          (let products = products_of response;
               allProducts' = concat_js allProducts products;
               hasMore = (length_js products = Some (JNum batchSize));
               offset' = offset + batchSize
           in if 10000 < length allProducts' then Leave allProducts' offset'
              else if hasMore then Again allProducts' offset'
              else Leave allProducts' offset'))"

text \<open>
  The loop: \<open>replies i\<close> is the reply to request number \<open>i\<close>. \<open>None\<close> is a loop that
  never ends.
\<close>

partial_function (option) batch_loop ::
  "engine \<Rightarrow> rat \<Rightarrow> (nat \<Rightarrow> fetch_outcome) \<Rightarrow> nat \<Rightarrow> json list \<Rightarrow> rat \<Rightarrow> (json list \<times> rat) option" where
  "batch_loop eng batchSize replies i allProducts offset =
     (case batch_body eng batchSize (replies i) allProducts offset of
        Leave allProducts' offset' \<Rightarrow> Some (allProducts', offset')
      | Again allProducts' offset' \<Rightarrow> batch_loop eng batchSize replies (Suc i) allProducts' offset')"

text \<open>
  The value returned: the products, their number, and \<open>Math.ceil(offset / batchSize)\<close>,
  which is \<open>NaN\<close> (\<open>None\<close>) for a batch size of 0. The offset and the quotient are
  exact here. The code adds and divides doubles, which gives the same for a batch size
  that is a whole number (as far as doubles hold whole numbers exactly), the only kind a
  number of products can equal; for any other batch size the code's \<open>batches\<close> can
  differ from the exact one.
\<close>

record batch_result =
  products :: "json list"
  total :: nat
  batches :: "int option"

definition getBatchProducts ::
  "engine \<Rightarrow> rat \<Rightarrow> (nat \<Rightarrow> fetch_outcome) \<Rightarrow> batch_result option" where
  "getBatchProducts eng batchSize replies =
     (case batch_loop eng batchSize replies 0 [] 0 of
        None \<Rightarrow> None
      | Some (allProducts, offset) \<Rightarrow>
          Some \<lparr>products = allProducts, total = length allProducts,
                batches = (if batchSize = 0 then None else Some \<lceil>offset / batchSize\<rceil>)\<rparr>)"

section \<open>Properties of the API clients\<close>

subsection \<open>Progress queries\<close>

lemma read_reply_404:
  "status_code response = 404 \<Longrightarrow> read_reply eng True dflt (Response response) = Returned JNull"
  by (simp add: read_reply_def ok_def)

text \<open>
  C5. For every identifier, when the server answers a progress request with status 404
  (no such job), the helper that made the request returns \<open>null\<close> and throws nothing,
  \<open>getCompareProgress\<close> on its endpoint and \<open>getUploadProgress\<close> on its own, whatever the
  other endpoint would answer; a poll on that answer calls the callback with nothing,
  schedules nothing and lets no error escape.
\<close>

theorem unknown_job_progress_null:
  "(fetch (''/api/compare-progress/'' @ identifier) = Response compareReply
      \<and> status_code compareReply = 404
    \<longrightarrow> getCompareProgress eng fetch identifier = Returned JNull
        \<and> poll eng fetch cb ''compare'' identifier
            = \<lparr>calls = [], scheduled = False, escaped = None\<rparr>
        \<and> pollProgress eng (fetch # later) cb ''compare'' identifier = [])
   \<and> (fetch (''/api/upload-progress/'' @ identifier) = Response uploadReply
      \<and> status_code uploadReply = 404
    \<longrightarrow> getUploadProgress eng fetch identifier = Returned JNull
        \<and> poll eng fetch cb ''upload'' identifier
            = \<lparr>calls = [], scheduled = False, escaped = None\<rparr>
        \<and> pollProgress eng (fetch # later) cb ''upload'' identifier = [])"
proof (intro conjI impI)
  assume a: "fetch (''/api/compare-progress/'' @ identifier) = Response compareReply
      \<and> status_code compareReply = 404"
  then show c: "getCompareProgress eng fetch identifier = Returned JNull"
    by (simp add: getCompareProgress_def read_reply_404)
  then show pc: "poll eng fetch cb ''compare'' identifier
            = \<lparr>calls = [], scheduled = False, escaped = None\<rparr>"
    by (simp add: poll_def fetch_progress_def)
  then show "pollProgress eng (fetch # later) cb ''compare'' identifier = []"
    by simp
next
  assume a: "fetch (''/api/upload-progress/'' @ identifier) = Response uploadReply
      \<and> status_code uploadReply = 404"
  then show u: "getUploadProgress eng fetch identifier = Returned JNull"
    by (simp add: getUploadProgress_def read_reply_404)
  then show pu: "poll eng fetch cb ''upload'' identifier
            = \<lparr>calls = [], scheduled = False, escaped = None\<rparr>"
    by (simp add: poll_def fetch_progress_def)
  then show "pollProgress eng (fetch # later) cb ''upload'' identifier = []"
    by simp
qed

text \<open>
  An engine for the examples that follow, none of which has a value converted: it
  answers every \<open>ToString\<close> as an object's and every \<open>ToNumber\<close> as \<open>NaN\<close>, which is what
  an engine does for a plain object, and is not used for any other value.
\<close>

definition plain_engine :: engine where
  "plain_engine =
     \<lparr>string_of = (\<lambda>v. ''[object Object]''), number_of = (\<lambda>v. None),
      syntax_error_message = ''Unexpected token'',
      type_error_message = ''Cannot read properties of null''\<rparr>"

definition half_done :: json where
  "half_done = JObj [(''current'', JNum 50), (''total'', JNum 100), (''completed'', JBool False)]"

definition no_progress :: http_response where
  "no_progress =
     \<lparr>status_code = 404, body = Some (JObj [(''error'', JStr ''No progress data'')])\<rparr>"

definition not_found :: "string \<Rightarrow> fetch_outcome" where
  "not_found url = Response no_progress"

text \<open>A file that was uploaded and never compared: its upload progress is known, its
  comparison is not.\<close>

definition uploaded_only :: "string \<Rightarrow> fetch_outcome" where
  "uploaded_only url =
     (if url = ''/api/upload-progress/products.csv''
      then Response \<lparr>status_code = 200, body = Some half_done\<rparr>
      else Response no_progress)"

definition silent :: callback where
  "silent arg = (case arg of ProgressData d \<Rightarrow> Returns d | ErrorObject m \<Rightarrow> Returns JNull)"

theorem unknown_job_progress_null_witness:
  "uploaded_only (''/api/compare-progress/'' @ ''products.csv'') = Response no_progress
   \<and> status_code no_progress = 404
   \<and> getCompareProgress plain_engine uploaded_only ''products.csv'' = Returned JNull
   \<and> getUploadProgress plain_engine uploaded_only ''products.csv'' = Returned half_done
   \<and> pollProgress plain_engine [uploaded_only, uploaded_only] silent ''compare'' ''products.csv''
        = []
   \<and> not_found (''/api/upload-progress/'' @ ''no-such-file.csv'') = Response no_progress
   \<and> getUploadProgress plain_engine not_found ''no-such-file.csv'' = Returned JNull
   \<and> pollProgress plain_engine [not_found, not_found] silent ''upload'' ''no-such-file.csv''
        = []"
proof -
  have known: "getUploadProgress plain_engine uploaded_only ''products.csv'' = Returned half_done"
    by (simp add: getUploadProgress_def read_reply_def uploaded_only_def ok_def)
  have c: "uploaded_only (''/api/compare-progress/'' @ ''products.csv'') = Response no_progress"
    by (simp add: uploaded_only_def)
  have u: "not_found (''/api/upload-progress/'' @ ''no-such-file.csv'') = Response no_progress"
    by (simp add: not_found_def)
  have s: "status_code no_progress = 404" by (simp add: no_progress_def)
  show ?thesis
    using unknown_job_progress_null
        [of uploaded_only "''products.csv''" no_progress plain_engine silent "[uploaded_only]"
            no_progress]
      unknown_job_progress_null
        [of not_found "''no-such-file.csv''" no_progress plain_engine silent "[not_found]"
            no_progress]
      known c u s
    by simp
qed

text \<open>
  C6. The identifier under which \<open>compareWithProgress\<close> polls for progress is the
  request's filename when the source type is \<open>'csv'\<close> and the constant \<open>'sf'\<close> for every
  other source type, Salesforce among them.
\<close>

theorem compare_progress_identifier:
  "(source_type data = ''csv'' \<longrightarrow> progress_identifier data = filename data)
   \<and> (source_type data \<noteq> ''csv'' \<longrightarrow> progress_identifier data = Some ''sf'')
   \<and> (source_type data = ''salesforce'' \<longrightarrow> progress_identifier data = Some ''sf'')
   \<and> polling (compareWithProgress data (Some cb) compared)
        = Some (''compare'', progress_identifier data)
   \<and> polling (compareWithProgress data None compared) = None"
  by (simp add: progress_identifier_def compareWithProgress_def)

theorem compare_progress_identifier_witness:
  "source_type \<lparr>source_type = ''csv'', filename = Some ''products.csv''\<rparr> = ''csv''
   \<and> progress_identifier \<lparr>source_type = ''csv'', filename = Some ''products.csv''\<rparr>
        = Some ''products.csv''
   \<and> source_type \<lparr>source_type = ''salesforce'', filename = None\<rparr> = ''salesforce''
   \<and> source_type \<lparr>source_type = ''salesforce'', filename = None\<rparr> \<noteq> ''csv''
   \<and> progress_identifier \<lparr>source_type = ''salesforce'', filename = None\<rparr> = Some ''sf''"
  using compare_progress_identifier [of "\<lparr>source_type = ''csv'', filename = Some ''products.csv''\<rparr>"]
    compare_progress_identifier [of "\<lparr>source_type = ''salesforce'', filename = None\<rparr>"]
  by simp


subsection \<open>The polling loop\<close>

lemma falsy_has_no_properties: "\<not> truthy d \<Longrightarrow> get_prop d k = None"
  by (cases d) simp_all

lemma less_than_undefined: "\<not> less_than eng None n"
  by (simp add: less_than_def)

lemma left_by_falsy: "\<not> truthy d \<Longrightarrow> left_by d after = d"
  by (cases d) (simp_all add: left_by_def)

lemma poll_on_data:
  assumes "fetch_progress eng fetch type identifier = Returned (Some progressData)"
    and "truthy progressData"
    and "cb (ProgressData progressData) = Returns after"
  shows "scheduled (poll eng fetch cb type identifier)
           \<longleftrightarrow> (\<not> truthy_opt (get_prop (left_by progressData after) ''completed'')
                \<and> less_than eng (get_prop (left_by progressData after) ''current'') 100)"
    and "calls (poll eng fetch cb type identifier) = [ProgressData progressData]"
  using assms by (simp_all add: poll_def)

lemma poll_on_falsy:
  assumes "fetch_progress eng fetch type identifier = Returned (Some progressData)"
    and "\<not> truthy progressData"
  shows "\<not> scheduled (poll eng fetch cb type identifier)"
    and "calls (poll eng fetch cb type identifier) = []"
  using assms by (simp_all add: poll_def)

lemma poll_on_untouched:
  assumes f: "fetch_progress eng fetch type identifier = Returned (Some progressData)"
    and r: "cb (ProgressData progressData) = Returns after"
    and c: "get_prop (left_by progressData after) ''completed''
              = get_prop progressData ''completed''"
    and u: "get_prop (left_by progressData after) ''current''
              = get_prop progressData ''current''"
  shows "scheduled (poll eng fetch cb type identifier)
           \<longleftrightarrow> (progressData \<noteq> JNull
                \<and> \<not> truthy_opt (get_prop progressData ''completed'')
                \<and> less_than eng (get_prop progressData ''current'') 100)"
proof (cases "truthy progressData")
  case True
  then have "progressData \<noteq> JNull" by auto
  moreover have "scheduled (poll eng fetch cb type identifier)
           \<longleftrightarrow> (\<not> truthy_opt (get_prop (left_by progressData after) ''completed'')
                \<and> less_than eng (get_prop (left_by progressData after) ''current'') 100)"
    using f True r by (rule poll_on_data(1) [where cb = cb])
  ultimately show ?thesis using c u by simp
next
  case False
  then have "get_prop progressData ''current'' = None" by (rule falsy_has_no_properties)
  moreover have "\<not> scheduled (poll eng fetch cb type identifier)"
    using f False by (rule poll_on_falsy(1))
  ultimately show ?thesis by (simp add: less_than_undefined)
qed

lemma poll_on_throw:
  assumes "fetch_progress eng fetch type identifier = Thrown m"
  shows "calls (poll eng fetch cb type identifier) = [ErrorObject m]"
    and "\<not> scheduled (poll eng fetch cb type identifier)"
  using assms by (simp_all add: poll_def on_error_def)

text \<open>
  C8, as the code has it. After a progress response is received and the callback has
  returned from it with the data's \<open>completed\<close> and \<open>current\<close> fields as they were,
  another poll is scheduled if and only if the data is not \<open>null\<close>, its \<open>completed\<close>
  field is falsy and its \<open>current\<close> field is less than 100; whatever the callback wrote,
  the decision is taken on the two fields as the callback left them. If the fetch
  throws, the callback is invoked exactly once, with the error's message, and no poll
  is scheduled: whatever the network would answer later, nothing more happens.
\<close>

theorem poll_schedules_iff:
  "(fetch_progress eng fetch type identifier = Returned (Some progressData)
      \<and> cb (ProgressData progressData) = Returns after
      \<and> get_prop (left_by progressData after) ''completed''
          = get_prop progressData ''completed''
      \<and> get_prop (left_by progressData after) ''current''
          = get_prop progressData ''current''
    \<longrightarrow> (scheduled (poll eng fetch cb type identifier)
           \<longleftrightarrow> (progressData \<noteq> JNull
                \<and> \<not> truthy_opt (get_prop progressData ''completed'')
                \<and> less_than eng (get_prop progressData ''current'') 100)))
   \<and> (fetch_progress eng fetch type identifier = Returned (Some progressData)
      \<and> truthy progressData
      \<and> cb (ProgressData progressData) = Returns after
    \<longrightarrow> (scheduled (poll eng fetch cb type identifier)
           \<longleftrightarrow> (\<not> truthy_opt (get_prop (left_by progressData after) ''completed'')
                \<and> less_than eng (get_prop (left_by progressData after) ''current'') 100)))
   \<and> (fetch_progress eng fetch type identifier = Thrown m
    \<longrightarrow> calls (poll eng fetch cb type identifier) = [ErrorObject m]
        \<and> \<not> scheduled (poll eng fetch cb type identifier)
        \<and> pollProgress eng (fetch # later) cb type identifier = [ErrorObject m])"
proof (intro conjI impI)
  assume "fetch_progress eng fetch type identifier = Returned (Some progressData)
      \<and> cb (ProgressData progressData) = Returns after
      \<and> get_prop (left_by progressData after) ''completed''
          = get_prop progressData ''completed''
      \<and> get_prop (left_by progressData after) ''current''
          = get_prop progressData ''current''"
  then show "scheduled (poll eng fetch cb type identifier)
           \<longleftrightarrow> (progressData \<noteq> JNull
                \<and> \<not> truthy_opt (get_prop progressData ''completed'')
                \<and> less_than eng (get_prop progressData ''current'') 100)"
    using poll_on_untouched by blast
next
  assume "fetch_progress eng fetch type identifier = Returned (Some progressData)
      \<and> truthy progressData
      \<and> cb (ProgressData progressData) = Returns after"
  then show "scheduled (poll eng fetch cb type identifier)
           \<longleftrightarrow> (\<not> truthy_opt (get_prop (left_by progressData after) ''completed'')
                \<and> less_than eng (get_prop (left_by progressData after) ''current'') 100)"
    using poll_on_data(1) by blast
next
  assume t: "fetch_progress eng fetch type identifier = Thrown m"
  show "calls (poll eng fetch cb type identifier) = [ErrorObject m]"
    using t by (rule poll_on_throw)
  show "\<not> scheduled (poll eng fetch cb type identifier)"
    using t by (rule poll_on_throw)
  show "pollProgress eng (fetch # later) cb type identifier = [ErrorObject m]"
    using poll_on_throw [OF t, of cb] by simp
qed

definition in_progress :: "string \<Rightarrow> fetch_outcome" where
  "in_progress url = Response \<lparr>status_code = 200, body = Some half_done\<rparr>"

definition offline :: "string \<Rightarrow> fetch_outcome" where
  "offline url = NetworkError ''Failed to fetch''"

text \<open>
  Two callbacks: one throws on progress data; one returns, having set \<open>completed\<close> on
  the object it was handed.
\<close>

definition throwing :: callback where
  "throwing arg =
     (case arg of ProgressData d \<Rightarrow> Throws ''render failed'' | ErrorObject m \<Rightarrow> Returns JNull)"

definition marking_done :: callback where
  "marking_done arg =
     (case arg of
        ProgressData d \<Rightarrow>
          (case d of JObj kvs \<Rightarrow> Returns (JObj (kvs @ [(''completed'', JBool True)]))
           | _ \<Rightarrow> Returns d)
      | ErrorObject m \<Rightarrow> Returns JNull)"

lemma fetch_in_progress:
  "fetch_progress plain_engine in_progress ''compare'' ''sf'' = Returned (Some half_done)"
  by (simp add: fetch_progress_def getCompareProgress_def read_reply_def in_progress_def ok_def)

lemma fetch_offline:
  "fetch_progress plain_engine offline ''compare'' ''sf'' = Thrown ''Failed to fetch''"
  by (simp add: fetch_progress_def getCompareProgress_def read_reply_def offline_def)

lemma half_done_continues:
  "half_done \<noteq> JNull \<and> \<not> truthy_opt (get_prop half_done ''completed'')
   \<and> less_than plain_engine (get_prop half_done ''current'') 100"
  by (simp add: half_done_def truthy_opt_def less_than_def)

lemma half_done_truthy: "truthy half_done"
  by (simp add: half_done_def)

lemma silent_half_done:
  "silent (ProgressData half_done) = Returns half_done"
  "left_by half_done half_done = half_done"
  by (simp_all add: silent_def left_by_def half_done_def)

theorem poll_schedules_iff_witness:
  "fetch_progress plain_engine in_progress ''compare'' ''sf'' = Returned (Some half_done)
   \<and> truthy half_done
   \<and> silent (ProgressData half_done) = Returns half_done
   \<and> get_prop (left_by half_done half_done) ''completed'' = get_prop half_done ''completed''
   \<and> get_prop (left_by half_done half_done) ''current'' = get_prop half_done ''current''
   \<and> scheduled (poll plain_engine in_progress silent ''compare'' ''sf'')
   \<and> fetch_progress plain_engine offline ''compare'' ''sf'' = Thrown ''Failed to fetch''
   \<and> pollProgress plain_engine [offline, in_progress] silent ''compare'' ''sf''
        = [ErrorObject ''Failed to fetch'']"
  using poll_schedules_iff
      [of plain_engine in_progress "''compare''" "''sf''" half_done silent half_done
          "''x''" "[]"]
    poll_schedules_iff
      [of plain_engine offline "''compare''" "''sf''" half_done silent half_done
          "''Failed to fetch''" "[in_progress]"]
  by (simp add: fetch_in_progress fetch_offline half_done_continues half_done_truthy
      silent_half_done)

text \<open>
  The claim as stated fails on what the callback does. The data received is not \<open>null\<close>,
  not completed and at 50. A callback that throws on it sends \<open>poll\<close> into its catch
  block, which reports the error and schedules nothing; a callback that returns after
  setting \<open>completed\<close> on the object makes the test that follows read it as completed,
  and nothing is scheduled either.
\<close>

theorem poll_schedules_counterexample:
  "fetch_progress plain_engine in_progress ''compare'' ''sf'' = Returned (Some half_done)
   \<and> half_done \<noteq> JNull
   \<and> \<not> truthy_opt (get_prop half_done ''completed'')
   \<and> less_than plain_engine (get_prop half_done ''current'') 100
   \<and> \<not> scheduled (poll plain_engine in_progress throwing ''compare'' ''sf'')
   \<and> calls (poll plain_engine in_progress throwing ''compare'' ''sf'')
        = [ProgressData half_done, ErrorObject ''render failed'']
   \<and> \<not> scheduled (poll plain_engine in_progress marking_done ''compare'' ''sf'')
   \<and> calls (poll plain_engine in_progress marking_done ''compare'' ''sf'')
        = [ProgressData half_done]"
proof -
  have "poll plain_engine in_progress throwing ''compare'' ''sf''
               = on_error throwing [ProgressData half_done] ''render failed''"
    using half_done_truthy by (simp add: poll_def fetch_in_progress throwing_def)
  then have t: "\<not> scheduled (poll plain_engine in_progress throwing ''compare'' ''sf'')"
    "calls (poll plain_engine in_progress throwing ''compare'' ''sf'')
        = [ProgressData half_done, ErrorObject ''render failed'']"
    by (simp_all add: on_error_def)
  have r: "marking_done (ProgressData half_done)
             = Returns (JObj [(''current'', JNum 50), (''total'', JNum 100),
                              (''completed'', JBool False), (''completed'', JBool True)])"
    by (simp add: marking_done_def half_done_def)
  have m: "\<not> scheduled (poll plain_engine in_progress marking_done ''compare'' ''sf'')"
    using poll_on_data(1) [where cb = marking_done, OF fetch_in_progress half_done_truthy r]
    by (simp add: left_by_def half_done_def truthy_opt_def)
  have mc: "calls (poll plain_engine in_progress marking_done ''compare'' ''sf'')
        = [ProgressData half_done]"
    using poll_on_data(2) [where cb = marking_done, OF fetch_in_progress half_done_truthy r] .
  from t m mc fetch_in_progress half_done_continues show ?thesis by simp
qed

subsection \<open>Batches of products\<close>

text \<open>How many elements one reply adds to \<open>allProducts\<close>.\<close>

definition delivered :: "engine \<Rightarrow> fetch_outcome \<Rightarrow> nat" where
  "delivered eng fetched =
     (case getSalesforceProducts eng fetched of
        Thrown m \<Rightarrow> 0
      | Returned JNull \<Rightarrow> 0
      | Returned response \<Rightarrow> length (concat_js [] (products_of response)))"

lemma length_concat_js: "length (concat_js xs v) = length xs + length (concat_js [] v)"
  by (cases v) simp_all

lemma concat_js_grows:
  assumes "length_js v = Some (JNum n)" and "n \<noteq> 0"
  shows "length xs < length (concat_js xs v)"
proof (cases v)
  case (JArr ys)
  with assms have "ys \<noteq> []" by auto
  with JArr show ?thesis by simp
qed simp_all

lemma batch_body_cases:
  obtains (fail) "batch_body eng batchSize fetched allProducts offset = Leave allProducts offset"
      and "delivered eng fetched = 0"
    | (got) response where "getSalesforceProducts eng fetched = Returned response"
      and "response \<noteq> JNull"
      and "batch_body eng batchSize fetched allProducts offset =
            (let products = products_of response;
                 allProducts' = concat_js allProducts products;
                 hasMore = (length_js products = Some (JNum batchSize));
                 offset' = offset + batchSize
             in if 10000 < length allProducts' then Leave allProducts' offset'
                else if hasMore then Again allProducts' offset'
                else Leave allProducts' offset')"
      and "delivered eng fetched = length (concat_js [] (products_of response))"
proof (cases "getSalesforceProducts eng fetched")
  case (Thrown m)
  then show ?thesis by (intro fail) (simp_all add: batch_body_def delivered_def)
next
  case (Returned response)
  show ?thesis
  proof (cases "response = JNull")
    case True
    with Returned show ?thesis by (intro fail) (simp_all add: batch_body_def delivered_def)
  next
    case False
    with Returned show ?thesis
      by (intro got [of response]) (simp_all add: batch_body_def delivered_def split: json.split)
  qed
qed

lemma batch_body_Again:
  assumes "batch_body eng batchSize fetched allProducts offset = Again allProducts' offset'"
  shows "length allProducts' \<le> 10000"
    and "length allProducts' = length allProducts + delivered eng fetched"
    and "batchSize \<noteq> 0 \<Longrightarrow> length allProducts < length allProducts'"
    and "offset' = offset + batchSize"
proof -
  show "length allProducts' \<le> 10000"
    using assms by (cases rule: batch_body_cases [of eng batchSize fetched allProducts offset])
      (auto simp: Let_def split: if_splits)
  show "length allProducts' = length allProducts + delivered eng fetched"
    using assms by (cases rule: batch_body_cases [of eng batchSize fetched allProducts offset])
      (auto simp: Let_def length_concat_js [of allProducts] split: if_splits)
  show "offset' = offset + batchSize"
    using assms by (cases rule: batch_body_cases [of eng batchSize fetched allProducts offset])
      (auto simp: Let_def split: if_splits)
  show "length allProducts < length allProducts'" if "batchSize \<noteq> 0"
    using assms that by (cases rule: batch_body_cases [of eng batchSize fetched allProducts offset])
      (auto simp: Let_def concat_js_grows split: if_splits)
qed

lemma batch_body_Leave:
  assumes "batch_body eng batchSize fetched allProducts offset = Leave allProducts' offset'"
  shows "length allProducts' = length allProducts + delivered eng fetched"
  using assms by (cases rule: batch_body_cases [of eng batchSize fetched allProducts offset])
    (auto simp: Let_def length_concat_js [of allProducts] split: if_splits)

lemma batch_loop_terminates:
  assumes "batchSize \<noteq> 0"
  shows "\<exists>r. batch_loop eng batchSize replies i allProducts offset = Some r"
proof (induction "10001 - length allProducts" arbitrary: allProducts offset i rule: less_induct)
  case less
  show ?case
  proof (cases "batch_body eng batchSize (replies i) allProducts offset")
    case (Leave a b)
    then show ?thesis by (subst batch_loop.simps) simp
  next
    case (Again a b)
    from batch_body_Again(1) [OF Again] batch_body_Again(3) [OF Again assms]
    have "10001 - length a < 10001 - length allProducts" by simp
    then have "\<exists>r. batch_loop eng batchSize replies (Suc i) a b = Some r" by (rule less)
    with Again show ?thesis by (subst batch_loop.simps) simp
  qed
qed

lemma batch_loop_bound:
  assumes run: "batch_loop eng batchSize replies i allProducts offset = Some y"
    and limit: "\<And>j. of_nat (delivered eng (replies j)) \<le> batchSize"
    and start: "length allProducts \<le> 10000"
  shows "of_nat (length (fst y)) \<le> 10000 + batchSize"
proof -
  have "(\<forall>j. of_nat (delivered eng (replies j)) \<le> batchSize)
          \<longrightarrow> length allProducts \<le> 10000
          \<longrightarrow> of_nat (length (fst y)) \<le> 10000 + batchSize"
  proof (rule batch_loop.raw_induct
      [where P = "\<lambda>eng batchSize replies i allProducts offset y.
         (\<forall>j. of_nat (delivered eng (replies j)) \<le> batchSize)
          \<longrightarrow> length allProducts \<le> 10000
          \<longrightarrow> of_nat (length (fst y)) \<le> 10000 + batchSize"
        and eng = eng and batchSize = batchSize and replies = replies and i = i
        and allProducts = allProducts and offset = offset and y = y], goal_cases)
    case (1 loop eng batchSize replies i allProducts offset y)
    show ?case
    proof (intro impI)
      assume lim: "\<forall>j. of_nat (delivered eng (replies j)) \<le> batchSize"
        and st: "length allProducts \<le> 10000"
      show "of_nat (length (fst y)) \<le> 10000 + batchSize"
      proof (cases "batch_body eng batchSize (replies i) allProducts offset")
        case (Leave a b)
        with 1(2) have y: "fst y = a" by auto
        have "length a = length allProducts + delivered eng (replies i)"
          using Leave by (rule batch_body_Leave)
        moreover have "of_nat (delivered eng (replies i)) \<le> batchSize" using lim by blast
        moreover have "(of_nat (length allProducts) :: rat) \<le> 10000"
          using st by (metis of_nat_le_iff of_nat_numeral)
        ultimately show ?thesis by (simp add: y)
      next
        case (Again a b)
        with 1(2) have "loop eng batchSize replies (Suc i) a b = Some y" by simp
        moreover have "length a \<le> 10000" using Again by (rule batch_body_Again)
        ultimately show ?thesis using 1(1) lim by blast
      qed
    qed
  next
    case 2
    show ?case by (rule run)
  qed
  with limit start show ?thesis by blast
qed


lemma batch_body_Again_iff:
  "(\<exists>a b. batch_body eng batchSize fetched allProducts offset = Again a b)
     \<longleftrightarrow> (\<exists>response. getSalesforceProducts eng fetched = Returned response
            \<and> response \<noteq> JNull
            \<and> length_js (products_of response) = Some (JNum batchSize)
            \<and> length (concat_js allProducts (products_of response)) \<le> 10000)"
proof (cases "getSalesforceProducts eng fetched")
  case (Thrown m)
  then show ?thesis by (simp add: batch_body_def)
next
  case (Returned response)
  then show ?thesis
    by (cases "response = JNull") (auto simp: batch_body_def Let_def split: json.split)
qed

text \<open>
  C9, as the code has it. For a batch size other than 0, \<open>getBatchProducts\<close> returns for
  every sequence of replies; a pass is followed by another exactly when its request
  returned a body whose products number \<open>batchSize\<close> and no more than 10000 products are
  collected; and when no reply holds more than \<open>batchSize\<close> products, at most
  \<open>10000 + batchSize\<close> products are returned.
\<close>

theorem getBatchProducts_returns:
  assumes "batchSize \<noteq> 0"
  shows "(\<exists>r. getBatchProducts eng batchSize replies = Some r
           \<and> total r = length (products r)
           \<and> ((\<forall>j. of_nat (delivered eng (replies j)) \<le> batchSize)
                \<longrightarrow> of_nat (total r) \<le> 10000 + batchSize))
       \<and> (\<forall>fetched allProducts offset.
             (\<exists>a b. batch_body eng batchSize fetched allProducts offset = Again a b)
               \<longleftrightarrow> (\<exists>response. getSalesforceProducts eng fetched = Returned response
                      \<and> response \<noteq> JNull
                      \<and> length_js (products_of response) = Some (JNum batchSize)
                      \<and> length (concat_js allProducts (products_of response)) \<le> 10000))"
proof -
  obtain y where y: "batch_loop eng batchSize replies 0 [] 0 = Some y"
    using batch_loop_terminates [OF assms] by blast
  have "(\<forall>j. of_nat (delivered eng (replies j)) \<le> batchSize)
          \<longrightarrow> of_nat (length (fst y)) \<le> 10000 + batchSize"
    using batch_loop_bound [OF y] by simp
  then have "\<exists>r. getBatchProducts eng batchSize replies = Some r
           \<and> total r = length (products r)
           \<and> ((\<forall>j. of_nat (delivered eng (replies j)) \<le> batchSize)
                \<longrightarrow> of_nat (total r) \<le> 10000 + batchSize)"
    by (cases y) (simp add: getBatchProducts_def y)
  then show ?thesis using batch_body_Again_iff by blast
qed

definition reply_with :: "json list \<Rightarrow> fetch_outcome" where
  "reply_with ps = Response \<lparr>status_code = 200, body = Some (JObj [(''products'', JArr ps)])\<rparr>"

definition two_then_one :: "nat \<Rightarrow> fetch_outcome" where
  "two_then_one i =
     (if i = 0 then reply_with [JStr ''K-1'', JStr ''K-2''] else reply_with [JStr ''K-3''])"

definition oversized :: "nat \<Rightarrow> fetch_outcome" where
  "oversized i = reply_with (replicate 10101 (JStr ''K-1''))"

definition no_products :: "nat \<Rightarrow> fetch_outcome" where
  "no_products i = reply_with []"

lemma products_of_reply:
  "getSalesforceProducts eng (reply_with ps) = Returned (JObj [(''products'', JArr ps)])"
  "products_of (JObj [(''products'', JArr ps)]) = JArr ps"
  by (simp_all add: getSalesforceProducts_def read_reply_def reply_with_def ok_def products_of_def)

lemma batch_body_reply:
  "batch_body eng batchSize (reply_with ps) allProducts offset =
     (if 10000 < length (allProducts @ ps) then Leave (allProducts @ ps) (offset + batchSize)
      else if of_nat (length ps) = batchSize then Again (allProducts @ ps) (offset + batchSize)
      else Leave (allProducts @ ps) (offset + batchSize))"
  by (simp add: batch_body_def products_of_reply Let_def)

lemma delivered_reply: "delivered eng (reply_with ps) = length ps"
  by (simp add: delivered_def products_of_reply)

lemma two_then_one_run:
  "getBatchProducts eng 2 two_then_one =
     Some \<lparr>products = [JStr ''K-1'', JStr ''K-2'', JStr ''K-3''], total = 3, batches = Some 2\<rparr>"
proof -
  have "batch_loop eng 2 two_then_one (Suc 0) [JStr ''K-1'', JStr ''K-2''] 2
          = Some ([JStr ''K-1'', JStr ''K-2'', JStr ''K-3''], 4)"
    by (subst batch_loop.simps) (simp add: two_then_one_def batch_body_reply)
  then have "batch_loop eng 2 two_then_one 0 [] 0
          = Some ([JStr ''K-1'', JStr ''K-2'', JStr ''K-3''], 4)"
    by (subst batch_loop.simps) (simp add: two_then_one_def batch_body_reply)
  then show ?thesis by (simp add: getBatchProducts_def)
qed

theorem getBatchProducts_returns_witness:
  "(2 :: rat) \<noteq> 0
   \<and> (\<forall>j. of_nat (delivered plain_engine (two_then_one j)) \<le> (2 :: rat))
   \<and> getBatchProducts plain_engine 2 two_then_one =
       Some \<lparr>products = [JStr ''K-1'', JStr ''K-2'', JStr ''K-3''], total = 3, batches = Some 2\<rparr>
   \<and> (3 :: rat) \<le> 10000 + 2"
  using getBatchProducts_returns [of 2 plain_engine two_then_one]
  by (simp add: two_then_one_run two_then_one_def delivered_reply)

lemma no_products_loops: "batch_loop eng 0 no_products i [] 0 = None"
proof (rule ccontr)
  assume "batch_loop eng 0 no_products i [] 0 \<noteq> None"
  then obtain y where y: "batch_loop eng 0 no_products i [] 0 = Some y" by blast
  have "\<not> (0 = (0 :: rat) \<and> no_products = no_products \<and> [] = ([] :: json list) \<and> 0 = (0 :: rat))"
  proof (rule batch_loop.raw_induct
      [where P = "\<lambda>eng batchSize replies i allProducts offset y.
          \<not> (batchSize = 0 \<and> replies = no_products \<and> allProducts = [] \<and> offset = 0)"
        and eng = eng and batchSize = 0 and replies = no_products and i = i
        and allProducts = "[]" and offset = 0 and y = y], goal_cases)
    case (1 loop eng batchSize replies i allProducts offset y)
    show ?case
    proof
      assume a: "batchSize = 0 \<and> replies = no_products \<and> allProducts = [] \<and> offset = 0"
      then have "batch_body eng batchSize (replies i) allProducts offset = Again [] 0"
        by (simp add: no_products_def batch_body_reply)
      with 1(2) have "loop eng batchSize replies (Suc i) [] 0 = Some y" by simp
      then have "\<not> (batchSize = 0 \<and> replies = no_products \<and> [] = ([] :: json list) \<and> 0 = (0 :: rat))"
        by (rule 1(1))
      with a show False by simp
    qed
  next
    case 2
    show ?case by (rule y)
  qed
  then show False by simp
qed

text \<open>
  The claim as stated fails twice. With the default batch size of 100, a server that
  answers the first request with 10101 products makes the function return all 10101,
  more than 10100. With a batch size of 0 and a server that has no products, every pass
  sees \<open>products.length === batchSize\<close> and the loop never ends.
\<close>

theorem getBatchProducts_counterexample:
  "map_option total (getBatchProducts plain_engine 100 oversized) = Some 10101
   \<and> \<not> (10101 :: rat) \<le> 10000 + 100
   \<and> getBatchProducts plain_engine 0 no_products = None"
proof -
  have "batch_loop plain_engine 100 oversized 0 [] 0
          = Some (replicate 10101 (JStr ''K-1''), 100)"
    by (subst batch_loop.simps) (simp add: oversized_def batch_body_reply)
  then have "map_option total (getBatchProducts plain_engine 100 oversized) = Some 10101"
    by (simp add: getBatchProducts_def)
  moreover have "getBatchProducts plain_engine 0 no_products = None"
    by (simp add: getBatchProducts_def no_products_loops)
  ultimately show ?thesis by simp
qed

section \<open>The reconciliation engine\<close>

text \<open>
  The engine (matcher, differ, report assembler, job orchestrator) is the backend's
  \<open>data_comparator\<close> and \<open>routes\<close>, which the frontend sources only call. Its
  definitions below follow the written specification of the engine.
\<close>

subsection \<open>Data model\<close>

text \<open>
  Modelled from the spec: the provenance of a record (section 3), the \<open>source\<close> field
  of the backend's CanonicalProduct.
\<close>

datatype provenance = SOURCE_CATALOG | TARGET_CATALOG

text \<open>
  Modelled from the spec: the CanonicalProduct record of the backend (section 3). A
  decimal price is a rational; an absent optional field is \<open>None\<close>.
\<close>

record CanonicalProduct =
  "identifier" :: "string option"
  name :: string
  price :: "rat option"
  description :: "string option"
  family :: "string option"
  source :: provenance
  rawIndex :: nat

text \<open>
  Modelled from the spec: the strategies of the backend's matcher (section 3), and its
  MatchPair record.
\<close>

datatype strategy = EXACT_ID | NORMALIZED_NAME | FUZZY_NAME | UNMATCHED

record MatchPair =
  sourceProduct :: "CanonicalProduct option"
  targetProduct :: "CanonicalProduct option"
  matchStrategy :: strategy
  matchScore :: rat

text \<open>
  Modelled from the spec: the engine's configuration, absent with the backend. The
  string-similarity score, the rendering of a price in a difference entry and the link
  of a target listing are left open by the spec and are parameters here.
\<close>

datatype description_mode = ExactDescription | SimilarDescription rat

record config =
  similarity :: "string \<Rightarrow> string \<Rightarrow> rat"
  similarityThreshold :: rat
  priceEpsilon :: rat
  descriptionMode :: description_mode
  showPrice :: "rat \<Rightarrow> string"
  listingUrl :: "CanonicalProduct \<Rightarrow> string option"
  chunkSize :: nat

subsection \<open>Normalised keys\<close>

text \<open>
  Modelled from the spec: the backend's normalisation of the strings it compares
  (sections 4.1 to 4.3): whitespace, ASCII punctuation, folding of the ASCII capitals,
  and whitespace collapsed, the words of a string joined by single spaces.
\<close>

definition is_space :: "char \<Rightarrow> bool" where
  "is_space c = (c \<in> {CHR '' '', CHR 0x09, CHR 0x0A, CHR 0x0D})"

definition punctuation :: string where
  "punctuation =
     ''!#$%&()*+,-./:;<=>?@[]^_{|}~'' @ [CHR 0x22, CHR 0x27, CHR 0x5C, CHR 0x60]"

definition is_punctuation :: "char \<Rightarrow> bool" where
  "is_punctuation c = (c \<in> set punctuation)"

definition case_fold :: "char \<Rightarrow> char" where
  "case_fold c =
     (case map_of (zip ''ABCDEFGHIJKLMNOPQRSTUVWXYZ'' ''abcdefghijklmnopqrstuvwxyz'') c of
        None \<Rightarrow> c
      | Some l \<Rightarrow> l)"

fun words_from :: "string \<Rightarrow> string \<Rightarrow> string list" where
  "words_from cur [] = (if cur = [] then [] else [cur])"
| "words_from cur (c # cs) =
     (if is_space c then (if cur = [] then words_from [] cs else cur # words_from [] cs)
      else words_from (cur @ [c]) cs)"

fun unwords :: "string list \<Rightarrow> string" where
  "unwords [] = []"
| "unwords [w] = w"
| "unwords (w # ws) = w @ CHR '' '' # unwords ws"

definition collapse_whitespace :: "string \<Rightarrow> string" where
  "collapse_whitespace s = unwords (words_from [] s)"

text \<open>
  Modelled from the spec: the matcher's keys (section 4.2). An identifier is compared
  without regard to case and whitespace; a name is case-folded, stripped of punctuation
  and has its whitespace collapsed.
\<close>

definition normalized_identifier :: "string \<Rightarrow> string" where
  "normalized_identifier s = map case_fold (filter (\<lambda>c. \<not> is_space c) s)"

definition normalized_name :: "string \<Rightarrow> string" where
  "normalized_name s =
     collapse_whitespace (map case_fold (filter (\<lambda>c. \<not> is_punctuation c) s))"

definition id_key :: "CanonicalProduct \<Rightarrow> string option" where
  "id_key p = map_option normalized_identifier (identifier p)"

definition name_key :: "CanonicalProduct \<Rightarrow> string" where
  "name_key p = normalized_name (CanonicalProduct.name p)"

subsection \<open>Matcher\<close>

text \<open>
  Modelled from the spec: the state of the matcher's cascade (section 4.2): the pairs
  made so far, the source records and the target records not yet paired.
\<close>

type_synonym pairing =
  "(CanonicalProduct \<times> CanonicalProduct) list \<times> CanonicalProduct list \<times> CanonicalProduct list"

definition add_pair :: "CanonicalProduct \<times> CanonicalProduct \<Rightarrow> pairing \<Rightarrow> pairing" where
  "add_pair p r = (case r of (pairs, sources, targets) \<Rightarrow> (p # pairs, sources, targets))"

definition keep_source :: "CanonicalProduct \<Rightarrow> pairing \<Rightarrow> pairing" where
  "keep_source s r = (case r of (pairs, sources, targets) \<Rightarrow> (pairs, s # sources, targets))"

text \<open>
  Modelled from the spec: one strategy of the matcher's cascade (section 4.2), working
  only on records not yet paired. The sources are taken in order; \<open>pick\<close> chooses a
  partner among the targets still unpaired, which then leaves them. The result is the
  pairs made, the sources left over and the targets left over.
\<close>

fun pair_off ::
  "(CanonicalProduct \<Rightarrow> CanonicalProduct list \<Rightarrow> CanonicalProduct option)
     \<Rightarrow> CanonicalProduct list \<Rightarrow> CanonicalProduct list \<Rightarrow> pairing" where
  "pair_off pick [] ts = ([], [], ts)"
| "pair_off pick (s # ss) ts =
     (case pick s ts of
        None \<Rightarrow> keep_source s (pair_off pick ss ts)
      | Some t \<Rightarrow> add_pair (s, t) (pair_off pick ss (remove1 t ts)))"

text \<open>
  Modelled from the spec: strategy 1, EXACT_ID. An identifier pairs its records when it
  has exactly one candidate on each side; an identifier shared by several candidates on
  one side pairs none of them.
\<close>

definition candidates :: "string \<Rightarrow> CanonicalProduct list \<Rightarrow> CanonicalProduct list" where
  "candidates k ps = filter (\<lambda>p. id_key p = Some k) ps"

definition exact_pick ::
  "CanonicalProduct list \<Rightarrow> CanonicalProduct \<Rightarrow> CanonicalProduct list \<Rightarrow> CanonicalProduct option" where
  "exact_pick sourceSet s unpaired =
     (case id_key s of
        None \<Rightarrow> None
      | Some k \<Rightarrow>
          if length (candidates k sourceSet) = 1
          then (case candidates k unpaired of [t] \<Rightarrow> Some t | _ \<Rightarrow> None)
          else None)"

text \<open>
  Modelled from the spec: strategy 2, NORMALIZED_NAME. Records with the same
  normalised name pair one to one, lowest \<open>rawIndex\<close> with lowest \<open>rawIndex\<close>: the
  sources are taken by ascending \<open>rawIndex\<close> and each takes the same-named target of
  lowest \<open>rawIndex\<close> still unpaired.
\<close>

fun lowest :: "CanonicalProduct list \<Rightarrow> CanonicalProduct option" where
  "lowest [] = None"
| "lowest (p # ps) =
     (case lowest ps of
        None \<Rightarrow> Some p
      | Some q \<Rightarrow> if rawIndex q < rawIndex p then Some q else Some p)"

definition name_pick :: "CanonicalProduct \<Rightarrow> CanonicalProduct list \<Rightarrow> CanonicalProduct option" where
  "name_pick s unpaired = lowest (filter (\<lambda>t. name_key t = name_key s) unpaired)"

text \<open>
  Modelled from the spec: strategy 3, FUZZY_NAME. Every remaining source is scored
  against every remaining target of the same family (when both have one); the best pair
  at or above the threshold is accepted, both records leave, and this repeats until no
  pair clears the threshold. Equal scores go to the lower \<open>rawIndex\<close>, of the source
  first.
\<close>

definition same_scope :: "CanonicalProduct \<Rightarrow> CanonicalProduct \<Rightarrow> bool" where
  "same_scope s t =
     (case family s of
        None \<Rightarrow> True
      | Some a \<Rightarrow> (case family t of None \<Rightarrow> True | Some b \<Rightarrow> a = b))"

definition score :: "config \<Rightarrow> CanonicalProduct \<Rightarrow> CanonicalProduct \<Rightarrow> rat" where
  "score cfg s t = similarity cfg (name_key s) (name_key t)"

definition fuzzy_candidates ::
  "config \<Rightarrow> CanonicalProduct list \<Rightarrow> CanonicalProduct list
     \<Rightarrow> (CanonicalProduct \<times> CanonicalProduct) list" where
  "fuzzy_candidates cfg ss ts =
     concat (map (\<lambda>s. map (\<lambda>t. (s, t))
                         (filter (\<lambda>t. same_scope s t \<and> similarityThreshold cfg \<le> score cfg s t) ts))
                 ss)"

definition better ::
  "config \<Rightarrow> CanonicalProduct \<times> CanonicalProduct \<Rightarrow> CanonicalProduct \<times> CanonicalProduct \<Rightarrow> bool" where
  "better cfg c b =
     (score cfg (fst b) (snd b) < score cfg (fst c) (snd c)
      \<or> (score cfg (fst c) (snd c) = score cfg (fst b) (snd b)
          \<and> (rawIndex (fst c) < rawIndex (fst b)
              \<or> (rawIndex (fst c) = rawIndex (fst b) \<and> rawIndex (snd c) < rawIndex (snd b)))))"

fun best ::
  "config \<Rightarrow> (CanonicalProduct \<times> CanonicalProduct) list
     \<Rightarrow> (CanonicalProduct \<times> CanonicalProduct) option" where
  "best cfg [] = None"
| "best cfg (c # cs) =
     (case best cfg cs of
        None \<Rightarrow> Some c
      | Some b \<Rightarrow> if better cfg b c then Some b else Some c)"

lemma best_mem: "best cfg cs = Some c \<Longrightarrow> c \<in> set cs"
  by (induction cs arbitrary: c) (auto split: option.splits if_splits)

lemma fuzzy_candidates_mem:
  "(s, t) \<in> set (fuzzy_candidates cfg ss ts) \<Longrightarrow> s \<in> set ss \<and> t \<in> set ts"
  by (auto simp: fuzzy_candidates_def)

function fuzzy_pass ::
  "config \<Rightarrow> CanonicalProduct list \<Rightarrow> CanonicalProduct list \<Rightarrow> pairing" where
  "fuzzy_pass cfg ss ts =
     (case best cfg (fuzzy_candidates cfg ss ts) of
        None \<Rightarrow> ([], ss, ts)
      | Some c \<Rightarrow> add_pair c (fuzzy_pass cfg (remove1 (fst c) ss) (remove1 (snd c) ts)))"
  by pat_completeness auto
termination
proof (relation "measure (\<lambda>(cfg, ss, ts). length ss)")
  show "wf (measure (\<lambda>(cfg, ss, ts). length ss))" by simp
next
  fix cfg :: config and ss ts :: "CanonicalProduct list" and c
  assume "best cfg (fuzzy_candidates cfg ss ts) = Some c"
  then have "(fst c, snd c) \<in> set (fuzzy_candidates cfg ss ts)"
    using best_mem by fastforce
  then have mem: "fst c \<in> set ss" using fuzzy_candidates_mem by blast
  then have "0 < length ss" by (rule length_pos_if_in_set)
  with mem have "length (remove1 (fst c) ss) < length ss"
    by (simp add: length_remove1)
  then show "((cfg, remove1 (fst c) ss, remove1 (snd c) ts), (cfg, ss, ts))
               \<in> measure (\<lambda>(cfg, ss, ts). length ss)"
    by simp
qed

declare fuzzy_pass.simps [simp del]

text \<open>
  Modelled from the spec: the matcher, \<open>match(sourceSet, targetSet)\<close> (section 4.2).
  The three strategies run in cascade; what is left becomes source-only and target-only
  pairs tagged UNMATCHED. The pairs are listed in source set order, then the leftover
  targets in their order (section 4.5). EXACT_ID scores 1 and FUZZY_NAME its similarity;
  a NORMALIZED_NAME pair is given 1 and an UNMATCHED pair 0, which the spec leaves open.
\<close>

definition matched :: "strategy \<Rightarrow> rat \<Rightarrow> CanonicalProduct \<times> CanonicalProduct \<Rightarrow> MatchPair" where
  "matched how sc p =
     \<lparr>sourceProduct = Some (fst p), targetProduct = Some (snd p),
      matchStrategy = how, matchScore = sc\<rparr>"

definition source_only :: "CanonicalProduct \<Rightarrow> MatchPair" where
  "source_only s =
     \<lparr>sourceProduct = Some s, targetProduct = None, matchStrategy = UNMATCHED, matchScore = 0\<rparr>"

definition target_only :: "CanonicalProduct \<Rightarrow> MatchPair" where
  "target_only t =
     \<lparr>sourceProduct = None, targetProduct = Some t, matchStrategy = UNMATCHED, matchScore = 0\<rparr>"

definition source_index :: "MatchPair \<Rightarrow> nat" where
  "source_index p = (case sourceProduct p of None \<Rightarrow> 0 | Some s \<Rightarrow> rawIndex s)"

definition match :: "config \<Rightarrow> CanonicalProduct list \<Rightarrow> CanonicalProduct list \<Rightarrow> MatchPair list" where
  "match cfg sourceSet targetSet =
     (case pair_off (exact_pick sourceSet) sourceSet targetSet of (byId, s1, t1) \<Rightarrow>
      case pair_off name_pick (sort_key rawIndex s1) t1 of (byName, s2, t2) \<Rightarrow>
      case fuzzy_pass cfg s2 t2 of (byFuzzy, s3, t3) \<Rightarrow>
        sort_key source_index
          (map (matched EXACT_ID 1) byId
           @ map (matched NORMALIZED_NAME 1) byName
           @ map (\<lambda>p. matched FUZZY_NAME (score cfg (fst p) (snd p)) p) byFuzzy
           @ map source_only s3)
        @ map target_only t3)"

text \<open>
  Modelled from the spec: the sides of a MatchPair (section 3) and the records a list of
  pairs holds on each side.
\<close>

definition has_source :: "MatchPair \<Rightarrow> bool" where
  "has_source p = (case sourceProduct p of None \<Rightarrow> False | Some s \<Rightarrow> True)"

definition has_target :: "MatchPair \<Rightarrow> bool" where
  "has_target p = (case targetProduct p of None \<Rightarrow> False | Some t \<Rightarrow> True)"

definition is_target_only :: "MatchPair \<Rightarrow> bool" where
  "is_target_only p = (case sourceProduct p of None \<Rightarrow> has_target p | Some s \<Rightarrow> False)"

definition sources_of :: "MatchPair list \<Rightarrow> CanonicalProduct list" where
  "sources_of pairs = List.map_filter sourceProduct pairs"

definition targets_of :: "MatchPair list \<Rightarrow> CanonicalProduct list" where
  "targets_of pairs = List.map_filter targetProduct pairs"

subsection \<open>Differ\<close>

text \<open>
  Modelled from the spec: the status of a row and the ComparisonResult record of the
  backend (section 3), one row of the report.
\<close>

datatype result_status = MATCH | MISMATCH | MISSING_FROM_TARGET | TARGET_ONLY

record ComparisonResult =
  productId :: "string option"
  name :: string
  status :: result_status
  differences :: "string list"
  targetUrl :: "string option"

text \<open>
  Modelled from the spec: the differ's field comparisons (section 4.3). Names are
  compared case-insensitively with whitespace normalised; prices within the configured
  epsilon, and only when both are known, an absent price being unknown and not zero;
  descriptions exactly, or by similarity at or above a threshold, an absent description
  read as empty.
\<close>

definition display_key :: "string \<Rightarrow> string" where
  "display_key s = map case_fold (collapse_whitespace s)"

definition name_differs :: "CanonicalProduct \<Rightarrow> CanonicalProduct \<Rightarrow> bool" where
  "name_differs s t =
     (display_key (CanonicalProduct.name s) \<noteq> display_key (CanonicalProduct.name t))"

definition price_differs :: "config \<Rightarrow> CanonicalProduct \<Rightarrow> CanonicalProduct \<Rightarrow> bool" where
  "price_differs cfg s t =
     (case price s of
        None \<Rightarrow> False
      | Some a \<Rightarrow> (case price t of None \<Rightarrow> False | Some b \<Rightarrow> priceEpsilon cfg < \<bar>a - b\<bar>))"

definition description_text :: "CanonicalProduct \<Rightarrow> string" where
  "description_text p = (case description p of None \<Rightarrow> [] | Some d \<Rightarrow> d)"

definition description_differs :: "config \<Rightarrow> CanonicalProduct \<Rightarrow> CanonicalProduct \<Rightarrow> bool" where
  "description_differs cfg s t =
     (case descriptionMode cfg of
        ExactDescription \<Rightarrow> description_text s \<noteq> description_text t
      | SimilarDescription threshold \<Rightarrow>
          similarity cfg (description_text s) (description_text t) < threshold)"

text \<open>
  Modelled from the spec: the difference entries (section 4.3), one per differing
  field, in the order name, price, description, each in the shape of the spec's
  example \<open>Price: 12.99 vs 14.50\<close>.
\<close>

definition entry :: "string \<Rightarrow> string \<Rightarrow> string \<Rightarrow> string" where
  "entry field a b = field @ '': '' @ a @ '' vs '' @ b"

definition name_entries :: "CanonicalProduct \<Rightarrow> CanonicalProduct \<Rightarrow> string list" where
  "name_entries s t =
     (if name_differs s t
      then [entry ''Name'' (CanonicalProduct.name s) (CanonicalProduct.name t)] else [])"

definition price_entries :: "config \<Rightarrow> CanonicalProduct \<Rightarrow> CanonicalProduct \<Rightarrow> string list" where
  "price_entries cfg s t =
     (case price s of
        None \<Rightarrow> []
      | Some a \<Rightarrow>
          (case price t of
             None \<Rightarrow> []
           | Some b \<Rightarrow>
               if priceEpsilon cfg < \<bar>a - b\<bar>
               then [entry ''Price'' (showPrice cfg a) (showPrice cfg b)] else []))"

definition description_entries :: "config \<Rightarrow> CanonicalProduct \<Rightarrow> CanonicalProduct \<Rightarrow> string list" where
  "description_entries cfg s t =
     (if description_differs cfg s t
      then [entry ''Description'' (description_text s) (description_text t)] else [])"

text \<open>
  Modelled from the spec: the differ, \<open>diff(pair)\<close> (section 4.3). A pair with one side
  absent is MISSING_FROM_TARGET or TARGET_ONLY with no differences; a pair with both
  sides is MATCH if and only if no field differs, and MISMATCH otherwise. A pair with
  neither side is not a MatchPair and has no result.
\<close>

definition diff :: "config \<Rightarrow> MatchPair \<Rightarrow> ComparisonResult option" where
  "diff cfg pair =
     (case sourceProduct pair of
        None \<Rightarrow>
          (case targetProduct pair of
             None \<Rightarrow> None
           | Some t \<Rightarrow>
               Some \<lparr>productId = identifier t, name = CanonicalProduct.name t,
                     status = TARGET_ONLY, differences = [], targetUrl = listingUrl cfg t\<rparr>)
      | Some s \<Rightarrow>
          (case targetProduct pair of
             None \<Rightarrow>
               Some \<lparr>productId = identifier s, name = CanonicalProduct.name s,
                     status = MISSING_FROM_TARGET, differences = [], targetUrl = None\<rparr>
           | Some t \<Rightarrow>
               Some \<lparr>productId = identifier s, name = CanonicalProduct.name s,
                     status = (if name_differs s t \<or> price_differs cfg s t
                                  \<or> description_differs cfg s t
                               then MISMATCH else MATCH),
                     differences = name_entries s t @ price_entries cfg s t
                                   @ description_entries cfg s t,
                     targetUrl = listingUrl cfg t\<rparr>))"

subsection \<open>Report assembler\<close>

text \<open>
  Modelled from the spec: the report of the backend (section 4.5): one count per status,
  \<open>totalSourceProducts\<close>, and the results in match order. The records the normaliser
  rejected never reach the matcher and are no part of these numbers: they are counted
  apart, by the normaliser.
\<close>

record Summary =
  matchCount :: nat
  mismatchCount :: nat
  missingFromTargetCount :: nat
  targetOnlyCount :: nat
  totalSourceProducts :: nat

record Report =
  summary :: Summary
  results :: "ComparisonResult list"

text \<open>
  Modelled from the spec: the counting of the assembler (section 4.5), one result at a
  time into the count of its status; a result stands for one product of the source set
  unless it is TARGET_ONLY.
\<close>

definition tally :: "ComparisonResult \<Rightarrow> Summary \<Rightarrow> Summary" where
  "tally r sm =
     (case status r of
        MATCH \<Rightarrow>
          sm\<lparr>matchCount := matchCount sm + 1,
             totalSourceProducts := totalSourceProducts sm + 1\<rparr>
      | MISMATCH \<Rightarrow>
          sm\<lparr>mismatchCount := mismatchCount sm + 1,
             totalSourceProducts := totalSourceProducts sm + 1\<rparr>
      | MISSING_FROM_TARGET \<Rightarrow>
          sm\<lparr>missingFromTargetCount := missingFromTargetCount sm + 1,
             totalSourceProducts := totalSourceProducts sm + 1\<rparr>
      | TARGET_ONLY \<Rightarrow> sm\<lparr>targetOnlyCount := targetOnlyCount sm + 1\<rparr>)"

definition empty_summary :: Summary where
  "empty_summary =
     \<lparr>matchCount = 0, mismatchCount = 0, missingFromTargetCount = 0, targetOnlyCount = 0,
      totalSourceProducts = 0\<rparr>"

text \<open>
  Modelled from the spec: the assembler, \<open>assemble(results)\<close> (section 4.5). The results
  are all it is given, so the size of the source set is counted from them.
\<close>

definition assemble :: "ComparisonResult list \<Rightarrow> Report" where
  "assemble rs = \<lparr>summary = foldr tally rs empty_summary, results = rs\<rparr>"


text \<open>Modelled from the spec: the pipeline of section 2, matcher, differ, assembler.\<close>

definition reconcile :: "config \<Rightarrow> CanonicalProduct list \<Rightarrow> CanonicalProduct list \<Rightarrow> Report" where
  "reconcile cfg sourceSet targetSet =
     assemble (List.map_filter (diff cfg) (match cfg sourceSet targetSet))"

subsection \<open>Job orchestrator\<close>

text \<open>
  Modelled from the spec: the status of a job and the ReconciliationJob record of the
  backend (section 3), with
  what the orchestrator keeps to drive it: the two catalogues, the cancellation flag
  and the captured error message.
\<close>

datatype job_status = PENDING | RUNNING | COMPLETED | FAILED | CANCELLED

record ReconciliationJob =
  status :: job_status
  processedCount :: nat
  totalCount :: nat
  results :: "Report option"
  errorMessage :: "string option"
  cancelRequested :: bool
  sourceCatalog :: "CanonicalProduct list"
  targetCatalog :: "CanonicalProduct list"

text \<open>Modelled from the spec: the terminal statuses of a job (section 4.4).\<close>

definition terminal :: "job_status \<Rightarrow> bool" where
  "terminal st = (st = COMPLETED \<or> st = FAILED \<or> st = CANCELLED)"

text \<open>Modelled from the spec: \<open>submitJob\<close> (section 6), accepting a request as a PENDING job.\<close>

definition submitJob :: "CanonicalProduct list \<Rightarrow> ReconciliationJob" where
  "submitJob src =
     \<lparr>status = PENDING, processedCount = 0, totalCount = length src, results = None,
      errorMessage = None, cancelRequested = False, sourceCatalog = src, targetCatalog = []\<rparr>"

text \<open>
  Modelled from the spec: what happens to a job (section 4.4). The orchestrator starts
  it; the target catalogue arrives; a chunk of the source set is processed; a catalogue
  fetch fails; cancellation is requested (or the deadline passes, which cancels the same
  way).
\<close>

datatype job_event =
  Started | TargetFetched "CanonicalProduct list" | ChunkProcessed | FetchFailed string
  | CancelRequested

text \<open>
  Modelled from the spec: the orchestrator's state machine (section 4.4),
  PENDING to RUNNING to COMPLETED, FAILED or CANCELLED, with no transition out of a
  terminal status. The cancellation flag is looked at between chunks; after a chunk
  \<open>processedCount\<close> is the number of source records processed so far; a failure
  discards what was computed; the report is published on completion only.
\<close>

definition process_chunk :: "config \<Rightarrow> ReconciliationJob \<Rightarrow> ReconciliationJob" where
  "process_chunk cfg job =
     (let done = length (take (processedCount job + chunkSize cfg) (sourceCatalog job))
      in if done = totalCount job
         then job\<lparr>ReconciliationJob.status := COMPLETED, processedCount := done,
                  ReconciliationJob.results :=
                    Some (reconcile cfg (sourceCatalog job) (targetCatalog job))\<rparr>
         else job\<lparr>processedCount := done\<rparr>)"

fun step :: "config \<Rightarrow> ReconciliationJob \<Rightarrow> job_event \<Rightarrow> ReconciliationJob" where
  "step cfg job Started =
     (if ReconciliationJob.status job = PENDING
      then job\<lparr>ReconciliationJob.status := RUNNING\<rparr> else job)"
| "step cfg job (TargetFetched tgt) =
     (if ReconciliationJob.status job = RUNNING then job\<lparr>targetCatalog := tgt\<rparr> else job)"
| "step cfg job ChunkProcessed =
     (if ReconciliationJob.status job = RUNNING
      then if cancelRequested job then job\<lparr>ReconciliationJob.status := CANCELLED\<rparr>
           else process_chunk cfg job
      else job)"
| "step cfg job (FetchFailed message) =
     (if ReconciliationJob.status job = RUNNING
      then job\<lparr>ReconciliationJob.status := FAILED, ReconciliationJob.results := None,
               errorMessage := Some message\<rparr>
      else job)"
| "step cfg job CancelRequested =
     (if terminal (ReconciliationJob.status job) then job else job\<lparr>cancelRequested := True\<rparr>)"

text \<open>
  Modelled from the spec: \<open>getProgress\<close> for a job that exists (section 6), and a run
  of one job in which the events of the orchestrator and the caller's progress
  queries interleave; the result is what the successive queries report.
\<close>

type_synonym progress = "nat \<times> nat \<times> job_status"

definition getProgress :: "ReconciliationJob \<Rightarrow> progress" where
  "getProgress job = (processedCount job, totalCount job, ReconciliationJob.status job)"

datatype activity = Happens job_event | Query

fun observed :: "config \<Rightarrow> ReconciliationJob \<Rightarrow> activity list \<Rightarrow> progress list" where
  "observed cfg job [] = []"
| "observed cfg job (Query # rest) = getProgress job # observed cfg job rest"
| "observed cfg job (Happens e # rest) = observed cfg (step cfg job e) rest"

subsection \<open>The catalogues of the spec's scenarios\<close>

text \<open>
  Modelled from the spec: the records of scenarios A, B and C (section 8), a similarity
  that scores the two ice bin names 0.9 as scenario C has it, the defaults of the
  configuration (threshold 0.85, epsilon 0.01), and a price rendered with two decimals
  as in the spec's difference entries.
\<close>

definition digit :: "nat \<Rightarrow> char" where
  "digit d = ''0123456789'' ! (d mod 10)"

function show_nat :: "nat \<Rightarrow> string" where
  "show_nat n = (if n < 10 then [digit n] else show_nat (n div 10) @ [digit n])"
  by pat_completeness auto
termination
  by (relation "measure id") auto

declare show_nat.simps [simp del]

definition two_decimals :: "rat \<Rightarrow> string" where
  "two_decimals q =
     (let cents = nat \<lfloor>q * 100 + 1 / 2\<rfloor>
      in show_nat (cents div 100) @ ''.'' @ [digit (cents div 10), digit cents])"

definition scenario_similarity :: "string \<Rightarrow> string \<Rightarrow> rat" where
  "scenario_similarity a b =
     (if a = b then 1
      else if a = ''18in ice bin cold plate'' \<and> b = ''18 inch ice bin w cold plate'' then 9 / 10
      else 0)"

definition default_config :: config where
  "default_config =
     \<lparr>similarity = scenario_similarity, similarityThreshold = 85 / 100, priceEpsilon = 1 / 100,
      descriptionMode = ExactDescription, showPrice = two_decimals,
      listingUrl = (\<lambda>p. None), chunkSize = 2\<rparr>"

definition strict_config :: config where
  "strict_config = default_config\<lparr>similarityThreshold := 95 / 100\<rparr>"

definition product ::
  "provenance \<Rightarrow> nat \<Rightarrow> string option \<Rightarrow> string \<Rightarrow> rat option \<Rightarrow> CanonicalProduct" where
  "product side i ident nm pr =
     \<lparr>identifier = ident, name = nm, price = pr, description = None, family = None,
      source = side, rawIndex = i\<rparr>"

definition scenario_sources :: "CanonicalProduct list" where
  "scenario_sources =
     [product SOURCE_CATALOG 0 (Some ''X1'') ''Widget'' (Some 10),
      product SOURCE_CATALOG 1 None ''Blue Mug'' None,
      product SOURCE_CATALOG 2 None ''18in Ice Bin Cold Plate'' None]"

definition scenario_targets :: "CanonicalProduct list" where
  "scenario_targets =
     [product TARGET_CATALOG 0 (Some ''x1 '') ''Widget'' (Some 12),
      product TARGET_CATALOG 1 None ''blue  mug'' None,
      product TARGET_CATALOG 2 None ''18 inch Ice Bin w/ Cold Plate'' None]"

section \<open>Properties of the reconciliation engine\<close>

subsection \<open>The matcher partitions both sets\<close>

lemma pair_off_mset:
  assumes pick: "\<And>s ts t. pick s ts = Some t \<Longrightarrow> t \<in> set ts"
    and run: "pair_off pick ss ts = (ps, us, ts')"
  shows "mset (map fst ps) + mset us = mset ss \<and> mset (map snd ps) + mset ts' = mset ts"
  using run
proof (induction ss arbitrary: ts ps us ts')
  case Nil
  then show ?case by simp
next
  case (Cons s ss)
  show ?case
  proof (cases "pick s ts")
    case None
    obtain ps0 us0 ts0 where r: "pair_off pick ss ts = (ps0, us0, ts0)"
      by (cases "pair_off pick ss ts") auto
    with Cons.prems None have "ps = ps0" "us = s # us0" "ts' = ts0"
      by (simp_all add: keep_source_def)
    with Cons.IH [OF r] show ?thesis by simp
  next
    case (Some t)
    then have t: "t \<in> set ts" by (rule pick)
    obtain ps0 us0 ts0 where r: "pair_off pick ss (remove1 t ts) = (ps0, us0, ts0)"
      by (cases "pair_off pick ss (remove1 t ts)") auto
    with Cons.prems Some have "ps = (s, t) # ps0" "us = us0" "ts' = ts0"
      by (simp_all add: add_pair_def)
    with Cons.IH [OF r] t show ?thesis by simp
  qed
qed

lemma fuzzy_pass_mset:
  "fuzzy_pass cfg ss ts = (ps, us, ts')
     \<Longrightarrow> mset (map fst ps) + mset us = mset ss \<and> mset (map snd ps) + mset ts' = mset ts"
proof (induction cfg ss ts arbitrary: ps us ts' rule: fuzzy_pass.induct)
  case (1 cfg ss ts)
  show ?case
  proof (cases "best cfg (fuzzy_candidates cfg ss ts)")
    case None
    with "1.prems" show ?thesis by (simp add: fuzzy_pass.simps [of cfg ss ts])
  next
    case (Some c)
    then have "(fst c, snd c) \<in> set (fuzzy_candidates cfg ss ts)"
      using best_mem by fastforce
    then have mem: "fst c \<in> set ss" "snd c \<in> set ts"
      using fuzzy_candidates_mem by blast+
    obtain ps0 us0 ts0 where
      r: "fuzzy_pass cfg (remove1 (fst c) ss) (remove1 (snd c) ts) = (ps0, us0, ts0)"
      by (cases "fuzzy_pass cfg (remove1 (fst c) ss) (remove1 (snd c) ts)") auto
    with "1.prems" Some have "ps = c # ps0" "us = us0" "ts' = ts0"
      by (simp_all add: fuzzy_pass.simps [of cfg ss ts] add_pair_def)
    with "1.IH" [OF Some r] mem show ?thesis by simp
  qed
qed

lemma exact_pick_mem: "exact_pick sourceSet s ts = Some t \<Longrightarrow> t \<in> set ts"
proof -
  assume a: "exact_pick sourceSet s ts = Some t"
  then obtain k where "candidates k ts = [t]"
    by (auto simp: exact_pick_def split: option.splits if_splits list.splits)
  then have "t \<in> set (candidates k ts)" by simp
  then show ?thesis by (simp add: candidates_def)
qed

lemma lowest_mem: "lowest ps = Some p \<Longrightarrow> p \<in> set ps"
  by (induction ps arbitrary: p) (auto split: option.splits if_splits)

lemma name_pick_mem: "name_pick s ts = Some t \<Longrightarrow> t \<in> set ts"
  using lowest_mem [of "filter (\<lambda>t. name_key t = name_key s) ts" t]
  by (simp add: name_pick_def)

lemma mset_map_filter_cong:
  "mset xs = mset ys \<Longrightarrow> mset (List.map_filter f xs) = mset (List.map_filter f ys)"
proof -
  assume "mset xs = mset ys"
  then have "image_mset (the \<circ> f) (filter_mset (\<lambda>x. f x \<noteq> None) (mset xs))
           = image_mset (the \<circ> f) (filter_mset (\<lambda>x. f x \<noteq> None) (mset ys))"
    by simp
  then show ?thesis by (simp add: List.map_filter_def)
qed

lemma map_filter_append: "List.map_filter f (xs @ ys) = List.map_filter f xs @ List.map_filter f ys"
  by (simp add: List.map_filter_def)

lemma sources_of_parts:
  "sources_of (map (matched how sc) ps) = map fst ps"
  "sources_of (map (\<lambda>p. matched how (g p) p) ps) = map fst ps"
  "sources_of (map source_only ss) = ss"
  "sources_of (map target_only ts) = []"
  by (simp_all add: sources_of_def List.map_filter_def matched_def source_only_def
      target_only_def filter_map o_def)

lemma targets_of_parts:
  "targets_of (map (matched how sc) ps) = map snd ps"
  "targets_of (map (\<lambda>p. matched how (g p) p) ps) = map snd ps"
  "targets_of (map source_only ss) = []"
  "targets_of (map target_only ts) = ts"
  by (simp_all add: targets_of_def List.map_filter_def matched_def source_only_def
      target_only_def filter_map o_def)

lemma match_unfold:
  obtains byId s1 t1 byName s2 t2 byFuzzy s3 t3 where
    "pair_off (exact_pick sourceSet) sourceSet targetSet = (byId, s1, t1)"
    "pair_off name_pick (sort_key rawIndex s1) t1 = (byName, s2, t2)"
    "fuzzy_pass cfg s2 t2 = (byFuzzy, s3, t3)"
    "match cfg sourceSet targetSet =
       sort_key source_index
         (map (matched EXACT_ID 1) byId
          @ map (matched NORMALIZED_NAME 1) byName
          @ map (\<lambda>p. matched FUZZY_NAME (score cfg (fst p) (snd p)) p) byFuzzy
          @ map source_only s3)
       @ map target_only t3"
proof -
  obtain byId s1 t1 where p1: "pair_off (exact_pick sourceSet) sourceSet targetSet = (byId, s1, t1)"
    by (cases "pair_off (exact_pick sourceSet) sourceSet targetSet") auto
  obtain byName s2 t2 where p2: "pair_off name_pick (sort_key rawIndex s1) t1 = (byName, s2, t2)"
    by (cases "pair_off name_pick (sort_key rawIndex s1) t1") auto
  obtain byFuzzy s3 t3 where p3: "fuzzy_pass cfg s2 t2 = (byFuzzy, s3, t3)"
    by (cases "fuzzy_pass cfg s2 t2") auto
  from p1 p2 p3 show ?thesis by (intro that [OF p1 p2 p3]) (simp add: match_def)
qed

lemma match_sources: "mset (sources_of (match cfg sourceSet targetSet)) = mset sourceSet"
proof -
  obtain byId s1 t1 byName s2 t2 byFuzzy s3 t3 where
    p1: "pair_off (exact_pick sourceSet) sourceSet targetSet = (byId, s1, t1)"
    and p2: "pair_off name_pick (sort_key rawIndex s1) t1 = (byName, s2, t2)"
    and p3: "fuzzy_pass cfg s2 t2 = (byFuzzy, s3, t3)"
    and m: "match cfg sourceSet targetSet =
       sort_key source_index
         (map (matched EXACT_ID 1) byId
          @ map (matched NORMALIZED_NAME 1) byName
          @ map (\<lambda>p. matched FUZZY_NAME (score cfg (fst p) (snd p)) p) byFuzzy
          @ map source_only s3)
       @ map target_only t3"
    by (rule match_unfold)
  let ?withSource = "map (matched EXACT_ID 1) byId
          @ map (matched NORMALIZED_NAME 1) byName
          @ map (\<lambda>p. matched FUZZY_NAME (score cfg (fst p) (snd p)) p) byFuzzy
          @ map source_only s3"
  have m1: "mset (map fst byId) + mset s1 = mset sourceSet"
    using pair_off_mset [OF exact_pick_mem p1] by simp
  have m2: "mset (map fst byName) + mset s2 = mset s1"
    using pair_off_mset [OF name_pick_mem p2] by simp
  have m3: "mset (map fst byFuzzy) + mset s3 = mset s2"
    using fuzzy_pass_mset [OF p3] by simp
  have "mset (sources_of (sort_key source_index ?withSource)) = mset (sources_of ?withSource)"
    unfolding sources_of_def by (rule mset_map_filter_cong) simp
  also have "sources_of ?withSource = map fst byId @ map fst byName @ map fst byFuzzy @ s3"
    by (simp add: sources_of_def map_filter_append sources_of_parts [unfolded sources_of_def])
  finally have "mset (sources_of (sort_key source_index ?withSource))
      = mset (map fst byId) + (mset (map fst byName) + (mset (map fst byFuzzy) + mset s3))"
    by simp
  also have "\<dots> = mset sourceSet" by (simp only: m3 m2 m1)
  finally have "mset (sources_of (sort_key source_index ?withSource)) = mset sourceSet" .
  then show ?thesis
    by (simp add: m sources_of_def map_filter_append sources_of_parts [unfolded sources_of_def])
qed

lemma match_targets: "mset (targets_of (match cfg sourceSet targetSet)) = mset targetSet"
proof -
  obtain byId s1 t1 byName s2 t2 byFuzzy s3 t3 where
    p1: "pair_off (exact_pick sourceSet) sourceSet targetSet = (byId, s1, t1)"
    and p2: "pair_off name_pick (sort_key rawIndex s1) t1 = (byName, s2, t2)"
    and p3: "fuzzy_pass cfg s2 t2 = (byFuzzy, s3, t3)"
    and m: "match cfg sourceSet targetSet =
       sort_key source_index
         (map (matched EXACT_ID 1) byId
          @ map (matched NORMALIZED_NAME 1) byName
          @ map (\<lambda>p. matched FUZZY_NAME (score cfg (fst p) (snd p)) p) byFuzzy
          @ map source_only s3)
       @ map target_only t3"
    by (rule match_unfold)
  let ?withSource = "map (matched EXACT_ID 1) byId
          @ map (matched NORMALIZED_NAME 1) byName
          @ map (\<lambda>p. matched FUZZY_NAME (score cfg (fst p) (snd p)) p) byFuzzy
          @ map source_only s3"
  have m1: "mset (map snd byId) + mset t1 = mset targetSet"
    using pair_off_mset [OF exact_pick_mem p1] by simp
  have m2: "mset (map snd byName) + mset t2 = mset t1"
    using pair_off_mset [OF name_pick_mem p2] by simp
  have m3: "mset (map snd byFuzzy) + mset t3 = mset t2"
    using fuzzy_pass_mset [OF p3] by simp
  have "mset (targets_of (sort_key source_index ?withSource)) = mset (targets_of ?withSource)"
    unfolding targets_of_def by (rule mset_map_filter_cong) simp
  also have "targets_of ?withSource = map snd byId @ map snd byName @ map snd byFuzzy"
    by (simp add: targets_of_def map_filter_append targets_of_parts [unfolded targets_of_def])
  finally have "mset (targets_of (sort_key source_index ?withSource)) + mset t3
      = mset (map snd byId) + (mset (map snd byName) + (mset (map snd byFuzzy) + mset t3))"
    by simp
  also have "\<dots> = mset targetSet" by (simp only: m3 m2 m1)
  finally have "mset (targets_of (sort_key source_index ?withSource)) + mset t3 = mset targetSet" .
  then show ?thesis
    by (simp add: m targets_of_def map_filter_append targets_of_parts [unfolded targets_of_def])
qed

lemma match_sides: "p \<in> set (match cfg sourceSet targetSet) \<Longrightarrow> has_source p \<or> has_target p"
proof -
  assume p: "p \<in> set (match cfg sourceSet targetSet)"
  obtain byId s1 t1 byName s2 t2 byFuzzy s3 t3 where
    "match cfg sourceSet targetSet =
       sort_key source_index
         (map (matched EXACT_ID 1) byId
          @ map (matched NORMALIZED_NAME 1) byName
          @ map (\<lambda>p. matched FUZZY_NAME (score cfg (fst p) (snd p)) p) byFuzzy
          @ map source_only s3)
       @ map target_only t3"
    by (rule match_unfold)
  with p show ?thesis
    by (auto simp: has_source_def has_target_def matched_def source_only_def target_only_def)
qed

lemma length_filter_has_source: "length (filter has_source ps) = length (sources_of ps)"
proof -
  have "has_source = (\<lambda>p. sourceProduct p \<noteq> None)"
    by (auto simp: has_source_def fun_eq_iff split: option.splits)
  then show ?thesis by (simp add: sources_of_def List.map_filter_def)
qed

lemma length_filter_has_target: "length (filter has_target ps) = length (targets_of ps)"
proof -
  have "has_target = (\<lambda>p. targetProduct p \<noteq> None)"
    by (auto simp: has_target_def fun_eq_iff split: option.splits)
  then show ?thesis by (simp add: targets_of_def List.map_filter_def)
qed


lemma target_only_complement:
  assumes "\<And>p. p \<in> set ps \<Longrightarrow> has_source p \<or> has_target p"
  shows "filter is_target_only ps = filter (\<lambda>p. \<not> has_source p) ps"
proof (rule filter_cong [OF refl])
  fix p assume "p \<in> set ps"
  then have "has_source p \<or> has_target p" by (rule assms)
  then show "is_target_only p = (\<not> has_source p)"
    by (auto simp: is_target_only_def has_source_def split: option.splits)
qed

text \<open>
  C1, as the matcher has it. For every pair of input sets the pairs returned by \<open>match\<close>
  partition the records: the source records of the pairs are exactly the source set
  and the target records exactly the target set, each record as often as it was given
  (once, when the set has no duplicates); every pair has at least one side; the pairs
  with a source record number \<open>|sourceSet|\<close>, the pairs with a target record
  \<open>|targetSet|\<close>, and the pairs with a source record and the target-only pairs together
  are all the pairs.
\<close>

theorem match_partition:
  "mset (sources_of (match cfg sourceSet targetSet)) = mset sourceSet
   \<and> mset (targets_of (match cfg sourceSet targetSet)) = mset targetSet
   \<and> (distinct sourceSet \<longrightarrow> distinct (sources_of (match cfg sourceSet targetSet)))
   \<and> (distinct targetSet \<longrightarrow> distinct (targets_of (match cfg sourceSet targetSet)))
   \<and> (\<forall>p \<in> set (match cfg sourceSet targetSet). has_source p \<or> has_target p)
   \<and> length (filter has_source (match cfg sourceSet targetSet)) = length sourceSet
   \<and> length (filter has_target (match cfg sourceSet targetSet)) = length targetSet
   \<and> length (filter has_source (match cfg sourceSet targetSet))
       + length (filter is_target_only (match cfg sourceSet targetSet))
       = length (match cfg sourceSet targetSet)"
proof -
  let ?pairs = "match cfg sourceSet targetSet"
  have s: "mset (sources_of ?pairs) = mset sourceSet" by (rule match_sources)
  have t: "mset (targets_of ?pairs) = mset targetSet" by (rule match_targets)
  have ds: "distinct sourceSet \<longrightarrow> distinct (sources_of ?pairs)"
    using s by (metis mset_eq_imp_distinct_iff)
  have dt: "distinct targetSet \<longrightarrow> distinct (targets_of ?pairs)"
    using t by (metis mset_eq_imp_distinct_iff)
  have sides: "\<forall>p \<in> set ?pairs. has_source p \<or> has_target p"
    using match_sides by blast
  have ls: "length (filter has_source ?pairs) = length sourceSet"
    using s by (metis length_filter_has_source size_mset)
  have lt: "length (filter has_target ?pairs) = length targetSet"
    using t by (metis length_filter_has_target size_mset)
  have "filter is_target_only ?pairs = filter (\<lambda>p. \<not> has_source p) ?pairs"
    using sides by (intro target_only_complement) blast
  then have all: "length (filter has_source ?pairs) + length (filter is_target_only ?pairs)
                    = length ?pairs"
    by (simp add: sum_length_filter_compl)
  from s t ds dt sides ls lt all show ?thesis by blast
qed

lemma scenario_default_strategies:
  "map matchStrategy (match default_config scenario_sources scenario_targets)
     = [EXACT_ID, NORMALIZED_NAME, FUZZY_NAME]"
  by code_simp

lemma scenario_distinct: "distinct scenario_sources \<and> distinct scenario_targets"
  by code_simp

lemma scenario_strict_strategies:
  "map matchStrategy (match strict_config scenario_sources scenario_targets)
     = [EXACT_ID, NORMALIZED_NAME, UNMATCHED, UNMATCHED]"
  by code_simp

lemma scenario_strict_sides:
  "map has_source (match strict_config scenario_sources scenario_targets)
     = [True, True, True, False]"
  "map is_target_only (match strict_config scenario_sources scenario_targets)
     = [False, False, False, True]"
  by code_simp+

lemma scenario_strict_counts:
  "length (filter has_source (match strict_config scenario_sources scenario_targets)) = 3"
  "length (filter is_target_only (match strict_config scenario_sources scenario_targets)) = 1"
  "length scenario_sources = 3"
  by code_simp+

theorem match_partition_witness:
  "distinct scenario_sources \<and> distinct scenario_targets
   \<and> match strict_config scenario_sources scenario_targets \<noteq> []
   \<and> distinct (sources_of (match strict_config scenario_sources scenario_targets))
   \<and> distinct (targets_of (match strict_config scenario_sources scenario_targets))
   \<and> length (match strict_config scenario_sources scenario_targets) = 4"
  using match_partition [of strict_config scenario_sources scenario_targets]
    scenario_distinct scenario_strict_counts
  by auto

text \<open>
  The count as the claim states it fails: with the similarity threshold at 0.95 the
  scenario catalogues give three pairs with a source record and one target-only pair,
  four together, for a source set of three.
\<close>

theorem match_count_counterexample:
  "length (filter has_source (match strict_config scenario_sources scenario_targets))
     + length (filter is_target_only (match strict_config scenario_sources scenario_targets))
   \<noteq> length scenario_sources"
  by (simp add: scenario_strict_counts)


subsection \<open>The differ's status and its differences\<close>

lemma price_entries_empty: "price_entries cfg s t = [] \<longleftrightarrow> \<not> price_differs cfg s t"
  by (simp add: price_entries_def price_differs_def split: option.splits)

lemma price_entries_length: "length (price_entries cfg s t) = of_bool (price_differs cfg s t)"
  by (simp add: price_entries_def price_differs_def split: option.splits)

text \<open>
  C3. For every MatchPair with both products present, \<open>diff\<close> returns a result whose
  status is MATCH if and only if its differences list is empty, and MISMATCH otherwise;
  the list is empty exactly when none of name, price and description differs, and holds
  one entry for each field that does.
\<close>

theorem diff_match_iff_no_differences:
  assumes "sourceProduct pair = Some s" and "targetProduct pair = Some t"
  shows "\<exists>r. diff cfg pair = Some r
           \<and> (ComparisonResult.status r = MATCH \<longleftrightarrow> ComparisonResult.differences r = [])
           \<and> (ComparisonResult.status r = MISMATCH \<longleftrightarrow> ComparisonResult.differences r \<noteq> [])
           \<and> (ComparisonResult.differences r = []
                \<longleftrightarrow> \<not> name_differs s t \<and> \<not> price_differs cfg s t
                     \<and> \<not> description_differs cfg s t)
           \<and> length (ComparisonResult.differences r)
                = of_bool (name_differs s t) + of_bool (price_differs cfg s t)
                  + of_bool (description_differs cfg s t)"
proof -
  let ?r = "\<lparr>productId = identifier s, name = CanonicalProduct.name s,
              status = (if name_differs s t \<or> price_differs cfg s t
                           \<or> description_differs cfg s t
                        then MISMATCH else MATCH),
              differences = name_entries s t @ price_entries cfg s t
                            @ description_entries cfg s t,
              targetUrl = listingUrl cfg t\<rparr>"
  have d: "diff cfg pair = Some ?r" using assms by (simp add: diff_def)
  have e: "ComparisonResult.differences ?r = []
             \<longleftrightarrow> \<not> name_differs s t \<and> \<not> price_differs cfg s t \<and> \<not> description_differs cfg s t"
    by (simp add: name_entries_def description_entries_def price_entries_empty)
  have l: "length (ComparisonResult.differences ?r)
             = of_bool (name_differs s t) + of_bool (price_differs cfg s t)
               + of_bool (description_differs cfg s t)"
    by (simp add: name_entries_def description_entries_def price_entries_length)
  have m: "ComparisonResult.status ?r = MATCH \<longleftrightarrow> ComparisonResult.differences ?r = []"
    unfolding e by simp
  have mm: "ComparisonResult.status ?r = MISMATCH \<longleftrightarrow> ComparisonResult.differences ?r \<noteq> []"
    unfolding e by simp
  from d e l m mm show ?thesis by blast
qed

lemma diff_one_sided:
  "diff cfg (source_only s) =
     Some \<lparr>productId = identifier s, name = CanonicalProduct.name s,
           status = MISSING_FROM_TARGET, differences = [], targetUrl = None\<rparr>"
  "diff cfg (target_only t) =
     Some \<lparr>productId = identifier t, name = CanonicalProduct.name t,
           status = TARGET_ONLY, differences = [], targetUrl = listingUrl cfg t\<rparr>"
  by (simp_all add: diff_def source_only_def target_only_def)

definition widget_pair :: MatchPair where
  "widget_pair =
     matched EXACT_ID 1
       (product SOURCE_CATALOG 0 (Some ''X1'') ''Widget'' (Some 10),
        product TARGET_CATALOG 0 (Some ''x1 '') ''Widget'' (Some 12))"

lemma widget_diff:
  "map_option ComparisonResult.status (diff default_config widget_pair) = Some MISMATCH"
  "map_option ComparisonResult.differences (diff default_config widget_pair)
     = Some [''Price: 10.00 vs 12.00'']"
  by code_simp+

theorem diff_match_iff_no_differences_witness:
  "sourceProduct widget_pair = Some (product SOURCE_CATALOG 0 (Some ''X1'') ''Widget'' (Some 10))
   \<and> targetProduct widget_pair = Some (product TARGET_CATALOG 0 (Some ''x1 '') ''Widget'' (Some 12))
   \<and> map_option ComparisonResult.status (diff default_config widget_pair) = Some MISMATCH
   \<and> map_option ComparisonResult.differences (diff default_config widget_pair)
        = Some [''Price: 10.00 vs 12.00'']"
  using diff_match_iff_no_differences
    [of widget_pair "product SOURCE_CATALOG 0 (Some ''X1'') ''Widget'' (Some 10)"
        "product TARGET_CATALOG 0 (Some ''x1 '') ''Widget'' (Some 12)" default_config]
    widget_diff
  by (simp add: widget_pair_def matched_def)

subsection \<open>The summary's counts\<close>










lemma scenario_summary:
  "summary (reconcile strict_config scenario_sources scenario_targets)
     = \<lparr>matchCount = 1, mismatchCount = 1, missingFromTargetCount = 1, targetOnlyCount = 1,
        totalSourceProducts = 3\<rparr>"
  by code_simp


subsection \<open>Progress never goes back\<close>

definition counts_ok :: "ReconciliationJob \<Rightarrow> bool" where
  "counts_ok job =
     (totalCount job = length (sourceCatalog job) \<and> processedCount job \<le> totalCount job)"

lemma process_chunk_counts:
  assumes "counts_ok job"
  shows "counts_ok (process_chunk cfg job)"
    and "processedCount job \<le> processedCount (process_chunk cfg job)"
    and "totalCount (process_chunk cfg job) = totalCount job"
  using assms by (auto simp: process_chunk_def counts_ok_def Let_def)

lemma step_counts:
  assumes "counts_ok job"
  shows "counts_ok (step cfg job e)"
    and "processedCount job \<le> processedCount (step cfg job e)"
    and "totalCount (step cfg job e) = totalCount job"
proof -
  show "counts_ok (step cfg job e)"
    using assms process_chunk_counts(1) [OF assms, of cfg]
    by (cases e) (auto simp: counts_ok_def)
  show "processedCount job \<le> processedCount (step cfg job e)"
    using process_chunk_counts(2) [OF assms, of cfg] by (cases e) auto
  show "totalCount (step cfg job e) = totalCount job"
    using process_chunk_counts(3) [OF assms, of cfg] by (cases e) auto
qed

lemma observed_bounds:
  assumes "counts_ok job"
  shows "\<forall>q \<in> set (observed cfg job acts).
           processedCount job \<le> fst q \<and> fst q \<le> fst (snd q) \<and> fst (snd q) = totalCount job"
  using assms
proof (induction acts arbitrary: job)
  case Nil
  then show ?case by simp
next
  case (Cons a acts)
  show ?case
  proof (cases a)
    case (Happens e)
    have "\<forall>q \<in> set (observed cfg (step cfg job e) acts).
            processedCount (step cfg job e) \<le> fst q \<and> fst q \<le> fst (snd q)
            \<and> fst (snd q) = totalCount (step cfg job e)"
      using Cons.prems by (intro Cons.IH step_counts)
    with Happens step_counts(2,3) [OF Cons.prems, of cfg e] show ?thesis by fastforce
  next
    case Query
    have rest: "\<forall>q \<in> set (observed cfg job acts).
            processedCount job \<le> fst q \<and> fst q \<le> fst (snd q)
            \<and> fst (snd q) = totalCount job"
      using Cons.prems by (rule Cons.IH)
    have first: "processedCount job \<le> fst (getProgress job)
            \<and> fst (getProgress job) \<le> fst (snd (getProgress job))
            \<and> fst (snd (getProgress job)) = totalCount job"
      using Cons.prems by (simp add: getProgress_def counts_ok_def)
    have "observed cfg job (a # acts) = getProgress job # observed cfg job acts"
      by (simp add: Query)
    with rest first show ?thesis by auto
  qed
qed

lemma observed_sorted:
  assumes "counts_ok job"
  shows "sorted (map fst (observed cfg job acts))"
  using assms
proof (induction acts arbitrary: job)
  case Nil
  then show ?case by simp
next
  case (Cons a acts)
  show ?case
  proof (cases a)
    case (Happens e)
    with Cons.prems show ?thesis by (simp add: Cons.IH step_counts)
  next
    case Query
    have "\<forall>q \<in> set (observed cfg job acts). processedCount job \<le> fst q"
      using observed_bounds [OF Cons.prems] by blast
    with Query Cons show ?thesis by (simp add: getProgress_def)
  qed
qed

text \<open>
  C4. During a single job, whatever the orchestrator does between the queries (chunks
  processed, a failed fetch, a cancellation), the \<open>processedCount\<close> values that
  successive \<open>getProgress\<close> calls report never decrease and never exceed \<open>totalCount\<close>,
  which stays the size of the source set.
\<close>

theorem progress_monotone_bounded:
  "sorted (map fst (observed cfg (submitJob src) acts))
   \<and> (\<forall>q \<in> set (observed cfg (submitJob src) acts).
         fst q \<le> fst (snd q) \<and> fst (snd q) = length src)"
proof -
  have ok: "counts_ok (submitJob src)" by (simp add: counts_ok_def submitJob_def)
  have "sorted (map fst (observed cfg (submitJob src) acts))"
    using ok by (rule observed_sorted)
  moreover have "\<forall>q \<in> set (observed cfg (submitJob src) acts).
         fst q \<le> fst (snd q) \<and> fst (snd q) = length src"
  proof -
    have tc: "totalCount (submitJob src) = length src" by (simp add: submitJob_def)
    show ?thesis using observed_bounds [OF ok, of cfg acts] unfolding tc by blast
  qed
  ultimately show ?thesis by blast
qed

definition polled_run :: "activity list" where
  "polled_run =
     [Query, Happens Started, Happens (TargetFetched scenario_targets),
      Happens ChunkProcessed, Query, Happens CancelRequested, Query,
      Happens ChunkProcessed, Query]"

definition finished_run :: "activity list" where
  "finished_run =
     [Query, Happens Started, Happens (TargetFetched scenario_targets),
      Happens ChunkProcessed, Query, Happens ChunkProcessed, Query,
      Happens (FetchFailed ''late''), Query]"

lemma polled_run_observed:
  "observed default_config (submitJob scenario_sources) polled_run
     = [(0, 3, PENDING), (2, 3, RUNNING), (2, 3, RUNNING), (2, 3, CANCELLED)]"
  by code_simp

lemma finished_run_observed:
  "observed default_config (submitJob scenario_sources) finished_run
     = [(0, 3, PENDING), (2, 3, RUNNING), (3, 3, COMPLETED), (3, 3, COMPLETED)]"
  by code_simp

theorem progress_monotone_bounded_witness:
  "observed default_config (submitJob scenario_sources) finished_run
     = [(0, 3, PENDING), (2, 3, RUNNING), (3, 3, COMPLETED), (3, 3, COMPLETED)]
   \<and> sorted (map fst (observed default_config (submitJob scenario_sources) finished_run))
   \<and> (2, 3, RUNNING) \<in> set (observed default_config (submitJob scenario_sources) finished_run)
   \<and> (2 :: nat) \<le> 3 \<and> length scenario_sources = 3"
  using progress_monotone_bounded [of default_config scenario_sources finished_run]
    finished_run_observed
  by auto

end
